theory Spec2Isabelle
  imports Main "HOL-Library.FSet" "HOL-Library.Char_ord" "HOL-Library.List_Lexorder"
begin

section \<open>Data model\<close>

text \<open>
  The bot keeps its presence state in a handful of in-memory containers created in
  \<^verbatim>\<open>main.py\<close> (lines 250-257) and reacts to three events in
  \<^verbatim>\<open>exts/pl_event_handling.py\<close>. Realm ids and xuids are Python strings,
  Discord ids are Python integers, timestamps are datetimes (here: microseconds as an
  integer), a correlation id is what \<^verbatim>\<open>uuid.uuid4()\<close> returns.
\<close>

type_synonym realm_id = string
type_synonym xuid = string
type_synonym guild_id = int
type_synonym chan_id = int
type_synonym role_id = int
type_synonym timestamp = int
type_synonym uuid = nat

text \<open>\<^verbatim>\<open>models.PlayerSession\<close>, with the fields the handlers and \<^verbatim>\<open>start\<close> use.\<close>

record player_session =
  custom_id :: uuid
  realm_id :: realm_id
  xuid :: xuid
  online :: bool
  last_seen :: timestamp

text \<open>
  \<^verbatim>\<open>models.GuildConfig\<close>, with the fields the handlers and \<^verbatim>\<open>start\<close> use.
  \<open>premium_code\<close> is the prefetched relation: the id of the related row, or \<open>None\<close>.
\<close>

record guild_config =
  guild_id :: guild_id
  config_realm_id :: "realm_id option"
  club_id :: "string option"
  playerlist_chan :: "chan_id option"
  live_playerlist :: bool
  fetch_devices :: bool
  warning_notifications :: bool
  realm_offline_role :: "role_id option"
  premium_code :: "int option"

text \<open>The events of \<^verbatim>\<open>common.playerlist_events\<close>, by the attributes the handlers read.\<close>

record live_playerlist_send =
  lps_realm_id :: realm_id
  joined :: "xuid fset"
  left :: "xuid fset"
  lps_timestamp :: timestamp

record realm_down_event =
  rd_realm_id :: realm_id
  disconnected :: "xuid fset"
  rd_timestamp :: timestamp
  rd_configs :: "guild_config list"

record warn_missing_playerlist =
  wmp_realm_id :: realm_id
  wmp_configs :: "guild_config list"

text \<open>
  The embed of a live update: its timestamp, the player count of its footer and its
  fields (name, lines of the value).
\<close>

record embed =
  embed_timestamp :: timestamp
  embed_footer :: nat
  embed_fields :: "(string \<times> string list) list"

text \<open>
  What a handler sends to a channel: the live embed, the realm-offline notice (with the
  role it mentions and whether the "unable to ping" paragraph was added) or the 24-hour
  warning.
\<close>

datatype message =
    LivePlayerlist embed
  | RealmOffline role_id bool timestamp
  | MissingPlayerlistWarning

text \<open>Exceptions, as values.\<close>

datatype exn =
    ValueError
  | KeyError
  | HTTPException int
  | MicrosoftAPIException int
  | DoesNotExist
  | OtherError string

text \<open>
  Calls that leave the handlers: to the database, to Discord, to the Realms API, to the
  event dispatcher, and to the helpers of \<^verbatim>\<open>common.playerlist_utils\<close>, whose code
  is not among the sources. A call is recorded with its arguments; the optional number of
  \<open>EventuallyInvalidate\<close> is the \<^verbatim>\<open>limit\<close> keyword (\<open>None\<close> when the call leaves it
  to the helper's default).
\<close>

datatype call =
    GuildConfigGet guild_id
  | ConfigSave guild_config
  | InvalidatePremium guild_config
  | EventuallyInvalidate guild_config "nat option"
  | EventuallyInvalidateRealmOffline guild_config
  | FillInGamertags "player_session list" "xuid fset"
  | FetchPlayerlistChannel guild_config
  | FetchRole guild_id role_id
  | ChanSend guild_id message
  | Dispatch live_playerlist_send
  | LeaveRealm realm_id
  | LogWarning realm_id

text \<open>
  The state of the bot the handlers touch: \<^verbatim>\<open>uuid_cache = defaultdict(uuid.uuid4)\<close>
  together with the values the successive \<^verbatim>\<open>uuid4()\<close> calls return and how many
  were drawn, \<^verbatim>\<open>online_cache = defaultdict(set)\<close>,
  \<^verbatim>\<open>live_playerlist_store = defaultdict(set)\<close>, \<^verbatim>\<open>fetch_devices_for\<close>, and
  the calls made so far.
\<close>

record bot =
  uuid_cache :: "string \<rightharpoonup> uuid"
  uuid4_values :: "nat \<Rightarrow> uuid"
  uuid4_drawn :: nat
  online_cache :: "int \<rightharpoonup> xuid fset"
  live_playerlist_store :: "realm_id \<rightharpoonup> guild_id fset"
  fetch_devices_for :: "realm_id fset"
  trace :: "call list"

text \<open>
  What the world outside answers: whether a call raises, the row
  \<^verbatim>\<open>GuildConfig.get\<close> returns, whether \<^verbatim>\<open>bot.get_guild\<close> finds the guild in
  the cache, the role \<^verbatim>\<open>guild.fetch_role\<close> returns (\<open>None\<close>, or whether it is
  mentionable), whether the bot may mention everyone in the guild's playerlist channel,
  the players \<^verbatim>\<open>fill_in_gamertags_for_sessions\<close> returns (xuid and display name),
  Python's \<^verbatim>\<open>int\<close> on a string, and \<^verbatim>\<open>os.environ\<close>. The answer to a call
  depends on the call and its arguments alone: one run of a handler makes a call with
  the same arguments once, unless the same guild or config comes twice.
\<close>

record env =
  raises :: "call \<Rightarrow> exn option"
  stored_config :: "guild_id \<Rightarrow> guild_config"
  get_guild :: "guild_id \<Rightarrow> bool"
  fetched_role :: "guild_id \<Rightarrow> role_id \<Rightarrow> bool option"
  mention_everyone :: "guild_id \<Rightarrow> bool"
  gamertags :: "player_session list \<Rightarrow> xuid fset \<Rightarrow> (xuid \<times> string) list"
  py_int :: "string \<Rightarrow> int option"
  environ :: "string \<rightharpoonup> string"

section \<open>Python containers\<close>

text \<open>
  A Python set is a finite set. Iterating it visits every element once, in an order the
  language leaves open; the sorted order stands for it here, and no statement below
  depends on the order.
\<close>

definition iter_set :: "'a::linorder fset \<Rightarrow> 'a list" where
  "iter_set s = sorted_list_of_fset s"

text \<open>\<^verbatim>\<open>d[k]\<close> on a \<^verbatim>\<open>defaultdict(set)\<close>: a missing key is inserted with the empty set.\<close>

definition defaultdict_set_getitem :: "('k \<rightharpoonup> 'a fset) \<Rightarrow> 'k \<Rightarrow> 'a fset \<times> ('k \<rightharpoonup> 'a fset)" where
  "defaultdict_set_getitem d k =
     (case d k of None \<Rightarrow> ({||}, d(k \<mapsto> {||})) | Some s \<Rightarrow> (s, d))"

text \<open>\<^verbatim>\<open>d[k].add(x)\<close> and \<^verbatim>\<open>d[k].discard(x)\<close> on a \<^verbatim>\<open>defaultdict(set)\<close>.\<close>

definition defaultdict_set_add :: "('k \<rightharpoonup> 'a fset) \<Rightarrow> 'k \<Rightarrow> 'a \<Rightarrow> ('k \<rightharpoonup> 'a fset)" where
  "defaultdict_set_add d k x =
     (let (s, d') = defaultdict_set_getitem d k in d'(k \<mapsto> finsert x s))"

definition defaultdict_set_discard :: "('k \<rightharpoonup> 'a fset) \<Rightarrow> 'k \<Rightarrow> 'a \<Rightarrow> ('k \<rightharpoonup> 'a fset)" where
  "defaultdict_set_discard d k x =
     (let (s, d') = defaultdict_set_getitem d k in d'(k \<mapsto> s |-| {|x|}))"

text \<open>Truthiness of an optional integer: \<^verbatim>\<open>None\<close> and 0 are false.\<close>

definition truthy_int :: "int option \<Rightarrow> bool" where
  "truthy_int v = (case v of None \<Rightarrow> False | Some n \<Rightarrow> n \<noteq> 0)"

section \<open>The correlation-id cache\<close>

text \<open>
  \<^verbatim>\<open>bot.uuid_cache[key]\<close> (main.py line 253): a key already present returns its
  value; a missing key calls \<^verbatim>\<open>uuid.uuid4()\<close>, stores the result and returns it.
\<close>

definition uuid_cache_getitem :: "bot \<Rightarrow> string \<Rightarrow> uuid \<times> bot" where
  "uuid_cache_getitem b key =
     (case uuid_cache b key of
        Some u \<Rightarrow> (u, b)
      | None \<Rightarrow>
          (let u = uuid4_values b (uuid4_drawn b)
           in (u, b\<lparr>uuid_cache := (uuid_cache b)(key \<mapsto> u), uuid4_drawn := Suc (uuid4_drawn b)\<rparr>)))"

text \<open>The key of a (realm, participant) pair: \<^verbatim>\<open>f"{event.realm_id}-{p}"\<close>.\<close>

definition realm_xuid_key :: "realm_id \<Rightarrow> xuid \<Rightarrow> string" where
  "realm_xuid_key r p = r @ ''-'' @ p"

definition resolve :: "bot \<Rightarrow> realm_id \<Rightarrow> xuid \<Rightarrow> uuid \<times> bot" where
  "resolve b r p = uuid_cache_getitem b (realm_xuid_key r p)"

text \<open>Resolving a list of pairs one after the other, as successive events do.\<close>

fun resolve_all :: "bot \<Rightarrow> (realm_id \<times> xuid) list \<Rightarrow> bot" where
  "resolve_all b [] = b"
| "resolve_all b ((r, p) # rps) = resolve_all (snd (resolve b r p)) rps"

section \<open>The session rows of a live update\<close>

text \<open>
  The list comprehension of \<^verbatim>\<open>on_live_playerlist_send\<close> (lines 35-44), over the
  participants in the order the union is iterated.
\<close>

fun build_player_sessions :: "live_playerlist_send \<Rightarrow> xuid list \<Rightarrow> bot \<Rightarrow> player_session list \<times> bot" where
  "build_player_sessions ev [] b = ([], b)"
| "build_player_sessions ev (p # ps) b =
     (let (u, b1) = uuid_cache_getitem b (realm_xuid_key (lps_realm_id ev) p);
          row = \<lparr>custom_id = u, realm_id = lps_realm_id ev, xuid = p,
                 online = (p |\<in>| joined ev), last_seen = lps_timestamp ev\<rparr>;
          (rows, b2) = build_player_sessions ev ps b1
      in (row # rows, b2))"

definition player_sessions_of :: "live_playerlist_send \<Rightarrow> bot \<Rightarrow> player_session list \<times> bot" where
  "player_sessions_of ev b = build_player_sessions ev (iter_set (joined ev |\<union>| left ev)) b"

section \<open>Calls to the outside\<close>

text \<open>
  An external call is recorded in the trace and either raises or returns. What a helper
  of \<^verbatim>\<open>common.playerlist_utils\<close> does to the stores or to the config it is handed
  is not among the sources and is not modelled: the trace says that it was called, and
  with what.
\<close>

definition call_ext :: "env \<Rightarrow> call \<Rightarrow> bot \<Rightarrow> exn option \<times> bot" where
  "call_ext e c b = (raises e c, b\<lparr>trace := trace b @ [c]\<rparr>)"

text \<open>
  The two \<^verbatim>\<open>except\<close> clauses that close the delivery attempt of
  \<^verbatim>\<open>on_live_playerlist_send\<close> (lines 99-103) and of \<^verbatim>\<open>realm_down\<close>
  (lines 167-171): a \<^verbatim>\<open>ValueError\<close> is dropped, an \<^verbatim>\<open>HTTPException\<close> goes to
  \<^verbatim>\<open>eventually_invalidate(self.bot, config)\<close>, anything else is not caught.
\<close>

definition delivery_except :: "env \<Rightarrow> guild_config \<Rightarrow> exn \<Rightarrow> bot \<Rightarrow> exn option \<times> bot" where
  "delivery_except e config x b =
     (case x of
        ValueError \<Rightarrow> (None, b)
      | HTTPException status \<Rightarrow> call_ext e (EventuallyInvalidate config None) b
      | _ \<Rightarrow> (Some x, b))"

section \<open>\<^verbatim>\<open>on_live_playerlist_send\<close>\<close>

text \<open>\<^verbatim>\<open>gamertag_mapping[p] for p in ...\<close>: the first missing key raises.\<close>

fun lookup_all :: "(xuid \<rightharpoonup> string) \<Rightarrow> xuid list \<Rightarrow> exn + string list" where
  "lookup_all m [] = Inr []"
| "lookup_all m (p # ps) =
     (case m p of
        None \<Rightarrow> Inl KeyError
      | Some g \<Rightarrow> (case lookup_all m ps of Inl x \<Rightarrow> Inl x | Inr gs \<Rightarrow> Inr (g # gs)))"

text \<open>
  \<^verbatim>\<open>if players: embed.add_field(name=f"{os.environ[var]} label", value=...)\<close>
  (lines 65-74).
\<close>

definition add_field :: "env \<Rightarrow> string \<Rightarrow> string \<Rightarrow> (xuid \<rightharpoonup> string) \<Rightarrow> xuid fset \<Rightarrow> embed \<Rightarrow> exn + embed" where
  "add_field e var label gamertag_mapping players em =
     (if players = {||} then Inr em
      else (case environ e var of
              None \<Rightarrow> Inl KeyError
            | Some emoji \<Rightarrow>
                (case lookup_all gamertag_mapping (iter_set players) of
                   Inl x \<Rightarrow> Inl x
                 | Inr names \<Rightarrow>
                     Inr (em\<lparr>embed_fields := embed_fields em @ [(emoji @ '' '' @ label, names)]\<rparr>))))"

text \<open>The body of the loop over the subscribed guilds (lines 77-103).\<close>

definition send_live_playerlist :: "env \<Rightarrow> realm_id \<Rightarrow> embed \<Rightarrow> guild_id \<Rightarrow> bot \<Rightarrow> exn option \<times> bot" where
  "send_live_playerlist e rid em gid b0 =
     (case call_ext e (GuildConfigGet gid) b0 of
        (Some x, b1) \<Rightarrow> (Some x, b1)
      | (None, b1) \<Rightarrow>
          (let config = stored_config e gid in
           if premium_code config = None then call_ext e (InvalidatePremium config) b1
           else if \<not> truthy_int (playerlist_chan config) then
             (let config' = config\<lparr>live_playerlist := False\<rparr>;
                  b2 = b1\<lparr>live_playerlist_store :=
                          defaultdict_set_discard (live_playerlist_store b1) rid gid\<rparr>
              in call_ext e (ConfigSave config') b2)
           else if \<not> get_guild e gid then (None, b1)
           else
             (case call_ext e (FetchPlayerlistChannel config) b1 of
                (Some x, b2) \<Rightarrow> delivery_except e config x b2
              | (None, b2) \<Rightarrow>
                  (case call_ext e (ChanSend gid (LivePlayerlist em)) b2 of
                     (Some x, b3) \<Rightarrow> delivery_except e config x b3
                   | (None, b3) \<Rightarrow> (None, b3)))))"

text \<open>The loop: an exception that leaves the body leaves the loop.\<close>

fun live_playerlist_loop :: "env \<Rightarrow> realm_id \<Rightarrow> embed \<Rightarrow> guild_id list \<Rightarrow> bot \<Rightarrow> exn option \<times> bot" where
  "live_playerlist_loop e rid em [] b = (None, b)"
| "live_playerlist_loop e rid em (gid # gids) b =
     (case send_live_playerlist e rid em gid b of
        (Some x, b') \<Rightarrow> (Some x, b')
      | (None, b') \<Rightarrow> live_playerlist_loop e rid em gids b')"

text \<open>The handler (lines 32-103).\<close>

definition on_live_playerlist_send :: "env \<Rightarrow> live_playerlist_send \<Rightarrow> bot \<Rightarrow> exn option \<times> bot" where
  "on_live_playerlist_send e ev b0 =
     (let (player_sessions, b1) = player_sessions_of ev b0;
          bypass_cache_for =
            (if lps_realm_id ev |\<in>| fetch_devices_for b1
             then fset_of_list (map xuid (filter online player_sessions)) else {||})
      in case call_ext e (FillInGamertags player_sessions bypass_cache_for) b1 of
           (Some x, b2) \<Rightarrow> (Some x, b2)
         | (None, b2) \<Rightarrow>
             (let gamertag_mapping = map_of (rev (gamertags e player_sessions bypass_cache_for)) in
              case py_int e (lps_realm_id ev) of
                None \<Rightarrow> (Some ValueError, b2)
              | Some n \<Rightarrow>
                  (let (s, oc) = defaultdict_set_getitem (online_cache b2) n;
                       b3 = b2\<lparr>online_cache := oc\<rparr>;
                       em0 = \<lparr>embed_timestamp = lps_timestamp ev, embed_footer = fcard s,
                              embed_fields = []\<rparr>
                   in case add_field e ''GREEN_CIRCLE_EMOJI'' ''Joined'' gamertag_mapping (joined ev) em0 of
                        Inl x \<Rightarrow> (Some x, b3)
                      | Inr em1 \<Rightarrow>
                          (case add_field e ''GRAY_CIRCLE_EMOJI'' ''Left'' gamertag_mapping (left ev) em1 of
                             Inl x \<Rightarrow> (Some x, b3)
                           | Inr em2 \<Rightarrow>
                               (let (gs, st) = defaultdict_set_getitem (live_playerlist_store b3) (lps_realm_id ev);
                                    b4 = b3\<lparr>live_playerlist_store := st\<rparr>
                                in live_playerlist_loop e (lps_realm_id ev) em2 (iter_set gs) b4)))))"

section \<open>\<^verbatim>\<open>realm_down\<close>\<close>

text \<open>
  The head of the handler (lines 107-113): with a live subscriber for the realm, a
  \<^verbatim>\<open>LivePlayerlistSend\<close> with nobody joined and the disconnected players as left is
  dispatched.
\<close>

definition realm_down_dispatch :: "realm_down_event \<Rightarrow> bot \<Rightarrow> bot" where
  "realm_down_dispatch ev b0 =
     (let (gs, st) = defaultdict_set_getitem (live_playerlist_store b0) (rd_realm_id ev);
          b1 = b0\<lparr>live_playerlist_store := st\<rparr>
      in if gs \<noteq> {||}
         then b1\<lparr>trace := trace b1 @
                  [Dispatch \<lparr>lps_realm_id = rd_realm_id ev, joined = {||},
                             left = disconnected ev, lps_timestamp = rd_timestamp ev\<rparr>]\<rparr>
         else b1)"

text \<open>
  The \<^verbatim>\<open>try\<close> block once the channel is fetched (lines 142-166): when the role cannot
  be pinged, \<^verbatim>\<open>eventually_invalidate_realm_offline\<close> is called; then the notice is
  sent. Both calls stand under the \<^verbatim>\<open>except\<close> clauses.
\<close>

definition realm_down_send :: "env \<Rightarrow> realm_down_event \<Rightarrow> guild_config \<Rightarrow> role_id \<Rightarrow> bool \<Rightarrow> bot \<Rightarrow> exn option \<times> bot" where
  "realm_down_send e ev config role_id unable b2 =
     (case (if unable then call_ext e (EventuallyInvalidateRealmOffline config) b2
            else (None, b2)) of
        (Some x, b3) \<Rightarrow> delivery_except e config x b3
      | (None, b3) \<Rightarrow>
          (case call_ext e (ChanSend (guild_id config)
                   (RealmOffline role_id unable (rd_timestamp ev))) b3 of
             (Some x, b4) \<Rightarrow> delivery_except e config x b4
           | (None, b4) \<Rightarrow> (None, b4)))"

text \<open>
  The body of the loop over the configs (lines 117-171). The \<^verbatim>\<open>try\<close> covers the
  fetch of the channel, the call of \<^verbatim>\<open>eventually_invalidate_realm_offline\<close> and the
  send.
\<close>

definition realm_down_notify :: "env \<Rightarrow> realm_down_event \<Rightarrow> guild_config \<Rightarrow> bot \<Rightarrow> exn option \<times> bot" where
  "realm_down_notify e ev config b0 =
     (case realm_offline_role config of
        None \<Rightarrow> (None, b0)
      | Some role_id \<Rightarrow>
          if \<not> truthy_int (playerlist_chan config) \<or> role_id = 0 then (None, b0)
          else if \<not> get_guild e (guild_id config) then (None, b0)
          else
            (case call_ext e (FetchRole (guild_id config) role_id) b0 of
               (Some x, b1) \<Rightarrow> (Some x, b1)
             | (None, b1) \<Rightarrow>
                 (let role = fetched_role e (guild_id config) role_id in
                  case call_ext e (FetchPlayerlistChannel config) b1 of
                    (Some x, b2) \<Rightarrow> delivery_except e config x b2
                  | (None, b2) \<Rightarrow>
                      realm_down_send e ev config role_id
                        (role = None \<or> (role = Some False \<and> \<not> mention_everyone e (guild_id config)))
                        b2)))"

fun realm_down_loop :: "env \<Rightarrow> realm_down_event \<Rightarrow> guild_config list \<Rightarrow> bot \<Rightarrow> exn option \<times> bot" where
  "realm_down_loop e ev [] b = (None, b)"
| "realm_down_loop e ev (config # configs) b =
     (case realm_down_notify e ev config b of
        (Some x, b') \<Rightarrow> (Some x, b')
      | (None, b') \<Rightarrow> realm_down_loop e ev configs b')"

definition realm_down :: "env \<Rightarrow> realm_down_event \<Rightarrow> bot \<Rightarrow> exn option \<times> bot" where
  "realm_down e ev b = realm_down_loop e ev (rd_configs ev) (realm_down_dispatch ev b)"

section \<open>\<^verbatim>\<open>warning_missing_playerlist\<close>\<close>

text \<open>
  The body of the loop over the configs (lines 180-231); the result is the flag appended
  to \<^verbatim>\<open>no_playerlist_chan\<close>. The call of \<^verbatim>\<open>eventually_invalidate\<close> stands
  outside any \<^verbatim>\<open>try\<close>; the fetch of the channel is guarded against
  \<^verbatim>\<open>ValueError\<close> only, the send against \<^verbatim>\<open>HTTPException\<close> only.
\<close>

definition warn_destination :: "env \<Rightarrow> guild_config \<Rightarrow> bot \<Rightarrow> (exn + bool) \<times> bot" where
  "warn_destination e config b0 =
     (if \<not> truthy_int (playerlist_chan config) then
        (let b1 = (case config_realm_id config of
                     None \<Rightarrow> b0
                   | Some rid \<Rightarrow>
                       if rid \<noteq> [] \<and> live_playerlist config
                       then b0\<lparr>live_playerlist_store :=
                               defaultdict_set_discard (live_playerlist_store b0) rid (guild_id config)\<rparr>
                       else b0);
             config' = config\<lparr>config_realm_id := None, club_id := None,
                               live_playerlist := False, fetch_devices := False\<rparr>
         in case call_ext e (ConfigSave config') b1 of
              (Some x, b2) \<Rightarrow> (Inl x, b2)
            | (None, b2) \<Rightarrow> (Inr True, b2))
      else if \<not> warning_notifications config then (Inr False, b0)
      else if \<not> get_guild e (guild_id config) then (Inr False, b0)
      else
        (case call_ext e (EventuallyInvalidate config (Some 7)) b0 of
           (Some x, b1) \<Rightarrow> (Inl x, b1)
         | (None, b1) \<Rightarrow>
             (case call_ext e (FetchPlayerlistChannel config) b1 of
                (Some ValueError, b2) \<Rightarrow> (Inr False, b2)
              | (Some x, b2) \<Rightarrow> (Inl x, b2)
              | (None, b2) \<Rightarrow>
                  (case call_ext e (ChanSend (guild_id config) MissingPlayerlistWarning) b2 of
                     (Some (HTTPException status), b3) \<Rightarrow> (Inr False, b3)
                   | (Some x, b3) \<Rightarrow> (Inl x, b3)
                   | (None, b3) \<Rightarrow> (Inr False, b3)))))"

fun warning_loop :: "env \<Rightarrow> guild_config list \<Rightarrow> bool list \<Rightarrow> bot \<Rightarrow> (exn + bool list) \<times> bot" where
  "warning_loop e [] no_playerlist_chan b = (Inr no_playerlist_chan, b)"
| "warning_loop e (config # configs) no_playerlist_chan b =
     (case warn_destination e config b of
        (Inl x, b') \<Rightarrow> (Inl x, b')
      | (Inr flag, b') \<Rightarrow> warning_loop e configs (no_playerlist_chan @ [flag]) b')"

text \<open>
  The end of the handler (lines 233-247): the realm is left when every flag is set or
  there is none; a \<^verbatim>\<open>MicrosoftAPIException\<close> with status 404 is logged, any other
  exception goes on.
\<close>

definition leave_realm :: "env \<Rightarrow> realm_id \<Rightarrow> bot \<Rightarrow> exn option \<times> bot" where
  "leave_realm e rid b0 =
     (let b1 = b0\<lparr>fetch_devices_for := fetch_devices_for b0 |-| {|rid|}\<rparr> in
      case call_ext e (LeaveRealm rid) b1 of
        (Some (MicrosoftAPIException status), b2) \<Rightarrow>
          if status = 404 then (None, b2\<lparr>trace := trace b2 @ [LogWarning rid]\<rparr>)
          else (Some (MicrosoftAPIException status), b2)
      | (Some x, b2) \<Rightarrow> (Some x, b2)
      | (None, b2) \<Rightarrow> (None, b2))"

definition warning_missing_playerlist :: "env \<Rightarrow> warn_missing_playerlist \<Rightarrow> bot \<Rightarrow> exn option \<times> bot" where
  "warning_missing_playerlist e ev b0 =
     (case warning_loop e (wmp_configs ev) [] b0 of
        (Inl x, b1) \<Rightarrow> (Some x, b1)
      | (Inr no_playerlist_chan, b1) \<Rightarrow>
          if list_all (\<lambda>flag. flag) no_playerlist_chan \<or> no_playerlist_chan = []
          then leave_realm e (wmp_realm_id ev) b1
          else (None, b1))"

section \<open>\<^verbatim>\<open>on_playerlist_finish\<close>\<close>

text \<open>The columns of a session row, as \<^verbatim>\<open>update_fields\<close> and \<^verbatim>\<open>on_conflict\<close> name them.\<close>

datatype session_field = F_custom_id | F_realm_id | F_xuid | F_online | F_last_seen

fun same_field :: "session_field \<Rightarrow> player_session \<Rightarrow> player_session \<Rightarrow> bool" where
  "same_field F_custom_id r t = (custom_id r = custom_id t)"
| "same_field F_realm_id r t = (realm_id r = realm_id t)"
| "same_field F_xuid r t = (xuid r = xuid t)"
| "same_field F_online r t = (online r = online t)"
| "same_field F_last_seen r t = (last_seen r = last_seen t)"

fun copy_field :: "player_session \<Rightarrow> session_field \<Rightarrow> player_session \<Rightarrow> player_session" where
  "copy_field r F_custom_id t = t\<lparr>custom_id := custom_id r\<rparr>"
| "copy_field r F_realm_id t = t\<lparr>realm_id := realm_id r\<rparr>"
| "copy_field r F_xuid t = t\<lparr>xuid := xuid r\<rparr>"
| "copy_field r F_online t = t\<lparr>online := online r\<rparr>"
| "copy_field r F_last_seen t = t\<lparr>last_seen := last_seen r\<rparr>"

text \<open>
  Modelled from the spec: the durable session store, whose bulk upsert
  (\<^verbatim>\<open>PlayerSession.bulk_create\<close> with \<^verbatim>\<open>on_conflict\<close> and
  \<^verbatim>\<open>update_fields\<close>) belongs to the ORM and the database and is not among the
  sources. Spec section 6: a bulk idempotent upsert of session rows keyed by the conflict
  key, with the given conflict-update field list. A row that agrees with a stored row on
  the conflict columns overwrites the listed columns of that row; any other row is
  inserted.
\<close>

definition conflicts :: "session_field list \<Rightarrow> player_session \<Rightarrow> player_session \<Rightarrow> bool" where
  "conflicts on_conflict r t = list_all (\<lambda>f. same_field f r t) on_conflict"

definition upsert :: "session_field list \<Rightarrow> session_field list \<Rightarrow> player_session \<Rightarrow> player_session list \<Rightarrow> player_session list" where
  "upsert on_conflict update_fields r table =
     (if list_ex (conflicts on_conflict r) table
      then map (\<lambda>t. if conflicts on_conflict r t then fold (copy_field r) update_fields t else t) table
      else table @ [r])"

definition bulk_create :: "player_session list \<Rightarrow> session_field list \<Rightarrow> session_field list \<Rightarrow> player_session list \<Rightarrow> player_session list" where
  "bulk_create rows on_conflict update_fields table =
     fold (upsert on_conflict update_fields) rows table"

text \<open>A container of \<^verbatim>\<open>PlayerlistParseFinish\<close>: its sessions and its field list.\<close>

record container =
  player_sessions :: "player_session list"
  container_fields :: "session_field list"

text \<open>The handler (lines 21-29), on the session table.\<close>

definition on_playerlist_finish :: "container list \<Rightarrow> player_session list \<Rightarrow> player_session list" where
  "on_playerlist_finish containers table =
     fold (\<lambda>c. bulk_create (player_sessions c) [F_custom_id] (container_fields c)) containers table"

section \<open>\<^verbatim>\<open>start\<close>\<close>

text \<open>\<^verbatim>\<open>datetime.timedelta(minutes=5)\<close>, in microseconds.\<close>

definition five_minutes :: int where
  "five_minutes = 5 * 60 * 1000000"

text \<open>
  Lines 272-275: the rows that are online and were last seen before five minutes ago are
  set offline.
\<close>

definition mark_stale_offline :: "timestamp \<Rightarrow> player_session list \<Rightarrow> player_session list" where
  "mark_stale_offline utcnow table =
     (let five_minutes_ago = utcnow - five_minutes
      in map (\<lambda>p. if online p \<and> last_seen p < five_minutes_ago then p\<lparr>online := False\<rparr> else p) table)"

text \<open>
  Modelled from the spec: the property \<^verbatim>\<open>realm_xuid_id\<close> of
  \<^verbatim>\<open>models.PlayerSession\<close>, which is not among the sources. Spec section 4.1: the
  mapping is keyed by \<^verbatim>\<open>"{realm_id}-{participant_id}"\<close>.
\<close>

definition realm_xuid_id :: "player_session \<Rightarrow> string" where
  "realm_xuid_id p = realm_xuid_key (realm_id p) (xuid p)"

text \<open>
  Lines 278-280, over the rows the query \<^verbatim>\<open>filter(online=True)\<close> returns.
  \<^verbatim>\<open>int(player.realm_id)\<close> raises \<^verbatim>\<open>ValueError\<close> on a string that is no number.
\<close>

fun seed_online_cache :: "env \<Rightarrow> player_session list \<Rightarrow> bot \<Rightarrow> exn option \<times> bot" where
  "seed_online_cache e [] b = (None, b)"
| "seed_online_cache e (player # players) b =
     (let b1 = b\<lparr>uuid_cache := (uuid_cache b)(realm_xuid_id player \<mapsto> custom_id player)\<rparr> in
      case py_int e (realm_id player) of
        None \<Rightarrow> (Some ValueError, b1)
      | Some n \<Rightarrow>
          seed_online_cache e players
            (b1\<lparr>online_cache := defaultdict_set_add (online_cache b1) n (xuid player)\<rparr>))"

text \<open>Lines 288-294: the filter of the query and the loop over its rows.\<close>

definition live_playerlist_filter :: "guild_config \<Rightarrow> bool" where
  "live_playerlist_filter config =
     (premium_code config \<noteq> None \<and> config_realm_id config \<noteq> None \<and>
      playerlist_chan config \<noteq> None \<and> live_playerlist config)"

fun seed_live_playerlist_store :: "guild_config list \<Rightarrow> bot \<Rightarrow> bot" where
  "seed_live_playerlist_store [] b = b"
| "seed_live_playerlist_store (config # configs) b =
     (case config_realm_id config of
        Some rid \<Rightarrow>
          if live_playerlist_filter config
          then seed_live_playerlist_store configs
                 (b\<lparr>live_playerlist_store :=
                      defaultdict_set_add (live_playerlist_store b) rid (guild_id config)\<rparr>)
          else seed_live_playerlist_store configs b
      | None \<Rightarrow> seed_live_playerlist_store configs b)"

text \<open>
  The containers as \<^verbatim>\<open>main.py\<close> creates them (lines 250-253), and \<^verbatim>\<open>start\<close>
  on the session table and the config table (lines 271-294; the scan of the offline
  realms in Redis and the loading of the extensions touch none of the containers here).
  The result is the exception that stopped it if any, the session table and the bot.
\<close>

definition new_bot :: "(nat \<Rightarrow> uuid) \<Rightarrow> bot" where
  "new_bot uuids =
     \<lparr>uuid_cache = Map.empty, uuid4_values = uuids, uuid4_drawn = 0, online_cache = Map.empty,
      live_playerlist_store = Map.empty, fetch_devices_for = {||}, trace = []\<rparr>"

definition start :: "env \<Rightarrow> timestamp \<Rightarrow> player_session list \<Rightarrow> guild_config list \<Rightarrow> bot \<Rightarrow> exn option \<times> player_session list \<times> bot" where
  "start e utcnow sessions configs b0 =
     (let sessions' = mark_stale_offline utcnow sessions in
      case seed_online_cache e (filter online sessions') b0 of
        (Some x, b1) \<Rightarrow> (Some x, sessions', b1)
      | (None, b1) \<Rightarrow> (None, sessions', seed_live_playerlist_store configs b1))"

section \<open>The poll cycle\<close>

text \<open>
  Modelled from the spec: the poller and the diff engine, which turn the answer of the
  presence source into the events the handlers above receive, are not among the sources.
  Spec section 6: \<^verbatim>\<open>poll(realm_id) -> Snapshot | Unreachable\<close>. Section 4.2: the
  presence store gives the set of participants online in a realm and is changed by
  \<^verbatim>\<open>apply(realm_id, joined, left)\<close>. Section 4.3: the tracker of the realms marked
  offline.
\<close>

datatype poll_result = Snapshot "xuid fset" | Unreachable

record tracker =
  presence :: "realm_id \<Rightarrow> xuid fset"
  offline_realms :: "realm_id fset"

text \<open>
  Modelled from the spec: what a poll cycle emits, a delta for the live update or the
  signal that the realm went down.
\<close>

datatype poll_event = Delta live_playerlist_send | RealmDown realm_id timestamp

text \<open>
  Modelled from the spec: \<^verbatim>\<open>observe(realm_id, snapshot, timestamp) -> Delta?\<close> of
  section 4.4. \<^verbatim>\<open>joined = snapshot - current\<close>, \<^verbatim>\<open>left = current - snapshot\<close>;
  if both are empty there is no delta; otherwise the store is updated via
  \<^verbatim>\<open>apply\<close> and the delta returned.
\<close>

definition observe :: "realm_id \<Rightarrow> xuid fset \<Rightarrow> timestamp \<Rightarrow> tracker \<Rightarrow> live_playerlist_send option \<times> tracker" where
  "observe r snapshot ts st =
     (let js = snapshot |-| presence st r;
          ls = presence st r |-| snapshot
      in if js = {||} \<and> ls = {||} then (None, st)
         else (Some \<lparr>lps_realm_id = r, joined = js, left = ls, lps_timestamp = ts\<rparr>,
               st\<lparr>presence := (presence st)(r := (presence st r |\<union>| js) |-| ls)\<rparr>))"

text \<open>
  Modelled from the spec: one poll cycle of a realm, section 4.5. On a poll with data
  the snapshot is handed to the diff engine (and the realm, reachable again, is no longer
  marked offline: section 3 and the state machine of section 4.8). On the signal that the
  realm is unreachable the realm is marked offline and the realm-down event is emitted,
  unless the realm is marked offline already, in which case nothing is notified. The
  staleness signal of section 4.4 and the admission gate of section 4.5 have no part in
  the outcome of a poll and are left out.
\<close>

definition poll_cycle :: "realm_id \<Rightarrow> poll_result \<Rightarrow> timestamp \<Rightarrow> tracker \<Rightarrow> poll_event list \<times> tracker" where
  "poll_cycle r result ts st =
     (case result of
        Snapshot snapshot \<Rightarrow>
          (case observe r snapshot ts (st\<lparr>offline_realms := offline_realms st |-| {|r|}\<rparr>) of
             (None, st') \<Rightarrow> ([], st')
           | (Some delta, st') \<Rightarrow> ([Delta delta], st'))
      | Unreachable \<Rightarrow>
          if r |\<in>| offline_realms st then ([], st)
          else ([RealmDown r ts], st\<lparr>offline_realms := finsert r (offline_realms st)\<rparr>))"

text \<open>The cycles of one realm, one poll result after the other.\<close>

fun poll_cycles :: "realm_id \<Rightarrow> (poll_result \<times> timestamp) list \<Rightarrow> tracker \<Rightarrow> poll_event list \<times> tracker" where
  "poll_cycles r [] st = ([], st)"
| "poll_cycles r ((result, ts) # rest) st =
     (let (events, st1) = poll_cycle r result ts st;
          (events', st2) = poll_cycles r rest st1
      in (events @ events', st2))"

section \<open>Notions used in the statements\<close>

text \<open>
  Reading a \<^verbatim>\<open>defaultdict(set)\<close> without touching it: the set at a key, empty if
  the key is missing.
\<close>

definition set_at :: "('k \<rightharpoonup> 'a fset) \<Rightarrow> 'k \<Rightarrow> 'a fset" where
  "set_at d k = (case d k of None \<Rightarrow> {||} | Some s \<Rightarrow> s)"

text \<open>
  The handler seen as one run of upserts: every session of every container, in order,
  with the field list of its container. (Used to reason about the handler; it is shown
  below to compute the same table.)
\<close>

definition session_ops :: "container list \<Rightarrow> (player_session \<times> session_field list) list" where
  "session_ops containers =
     concat (map (\<lambda>c. map (\<lambda>r. (r, container_fields c)) (player_sessions c)) containers)"

definition upserts :: "(player_session \<times> session_field list) list \<Rightarrow> player_session list \<Rightarrow> player_session list" where
  "upserts ops table = fold (\<lambda>(r, uf). upsert [F_custom_id] uf r) ops table"

text \<open>
  A row is settled in a table when the table has a row with its correlation id and
  writing the listed fields of the row into any such row changes nothing.
\<close>

definition settled :: "player_session \<Rightarrow> session_field list \<Rightarrow> player_session list \<Rightarrow> bool" where
  "settled r uf table =
     (list_ex (\<lambda>t. custom_id t = custom_id r) table \<and>
      list_all (\<lambda>t. custom_id t \<noteq> custom_id r \<or> fold (copy_field r) uf t = t) table)"



text \<open>
  Kinds of calls and of exceptions: the dispatch of a live update; the two calls of a
  delivery attempt (fetching the playerlist channel and sending to it); the exceptions
  the \<^verbatim>\<open>except\<close> clauses of a delivery attempt catch. A world in which the only
  calls that raise are those of a delivery attempt, and what they raise is caught.
\<close>

definition is_dispatch :: "call \<Rightarrow> bool" where
  "is_dispatch c = (case c of Dispatch ev \<Rightarrow> True | _ \<Rightarrow> False)"

definition is_delivery :: "call \<Rightarrow> bool" where
  "is_delivery c = (case c of FetchPlayerlistChannel config \<Rightarrow> True | ChanSend g m \<Rightarrow> True | _ \<Rightarrow> False)"

definition caught :: "exn \<Rightarrow> bool" where
  "caught x = (case x of ValueError \<Rightarrow> True | HTTPException status \<Rightarrow> True | _ \<Rightarrow> False)"

definition delivery_errors_only :: "env \<Rightarrow> bool" where
  "delivery_errors_only e =
     (\<forall>c. case raises e c of None \<Rightarrow> True | Some x \<Rightarrow> is_delivery c \<and> caught x)"

text \<open>The calls a handler made: the trace after it, without the trace before it.\<close>

definition new_calls :: "bot \<Rightarrow> bot \<Rightarrow> call list" where
  "new_calls b b' = drop (length (trace b)) (trace b')"

text \<open>
  The calls of a delivery attempt, for the statements about the loops: the calls of the
  \<^verbatim>\<open>try\<close> block are made in order up to the first that raises; an
  \<^verbatim>\<open>HTTPException\<close> is followed by \<^verbatim>\<open>eventually_invalidate\<close> for the config of
  the destination, with the default limit, and any other exception by nothing.
\<close>

fun attempt_calls :: "env \<Rightarrow> guild_config \<Rightarrow> call list \<Rightarrow> call list" where
  "attempt_calls e config [] = []"
| "attempt_calls e config (c # cs) =
     c # (case raises e c of
            None \<Rightarrow> attempt_calls e config cs
          | Some (HTTPException status) \<Rightarrow> [EventuallyInvalidate config None]
          | Some x \<Rightarrow> [])"

text \<open>
  The calls of the live update for one subscribed guild: the config is read; without a
  premium code \<^verbatim>\<open>invalidate_premium\<close> is called; without a channel the config is
  saved with the live playerlist off; a guild that is not in the cache gets nothing; any
  other guild gets the delivery attempt, the fetch of the channel and the send.
\<close>

definition live_update_calls :: "env \<Rightarrow> embed \<Rightarrow> guild_id \<Rightarrow> call list" where
  "live_update_calls e em g =
     (let config = stored_config e g in
      GuildConfigGet g #
        (if premium_code config = None then [InvalidatePremium config]
         else if \<not> truthy_int (playerlist_chan config)
           then [ConfigSave (config\<lparr>live_playerlist := False\<rparr>)]
         else if \<not> get_guild e g then []
         else attempt_calls e config
                [FetchPlayerlistChannel config, ChanSend g (LivePlayerlist em)]))"

text \<open>
  The calls of the realm-down notice for one config: nothing without a channel, an
  offline role or a cached guild; otherwise the role is fetched and the delivery attempt
  follows: the fetch of the channel, \<^verbatim>\<open>eventually_invalidate_realm_offline\<close> when
  the role cannot be pinged, and the send of the notice.
\<close>

definition realm_down_calls :: "env \<Rightarrow> realm_down_event \<Rightarrow> guild_config \<Rightarrow> call list" where
  "realm_down_calls e ev config =
     (case realm_offline_role config of
        None \<Rightarrow> []
      | Some role_id \<Rightarrow>
          if \<not> truthy_int (playerlist_chan config) \<or> role_id = 0 \<or>
             \<not> get_guild e (guild_id config) then []
          else
            (let unable = (fetched_role e (guild_id config) role_id = None \<or>
                   (fetched_role e (guild_id config) role_id = Some False \<and>
                    \<not> mention_everyone e (guild_id config)))
             in FetchRole (guild_id config) role_id #
                attempt_calls e config
                  (FetchPlayerlistChannel config #
                   (if unable then [EventuallyInvalidateRealmOffline config] else []) @
                   [ChanSend (guild_id config) (RealmOffline role_id unable (rd_timestamp ev))])))"

text \<open>
  The calls of the missing-playerlist warning for one config, in a pass that goes on to
  the next config: a config without a channel is saved unlinked from its realm; with the
  warning notifications off or its guild not in the cache nothing is called; otherwise
  \<^verbatim>\<open>eventually_invalidate\<close> is called with limit 7, the channel is fetched, and the
  warning is sent when the fetch did not raise. Nothing follows a failed fetch or send.
\<close>

definition warning_calls :: "env \<Rightarrow> guild_config \<Rightarrow> call list" where
  "warning_calls e config =
     (if \<not> truthy_int (playerlist_chan config)
      then [ConfigSave (config\<lparr>config_realm_id := None, club_id := None,
                               live_playerlist := False, fetch_devices := False\<rparr>)]
      else if \<not> warning_notifications config \<or> \<not> get_guild e (guild_id config) then []
      else EventuallyInvalidate config (Some 7) # FetchPlayerlistChannel config #
             (if raises e (FetchPlayerlistChannel config) = None
              then [ChanSend (guild_id config) MissingPlayerlistWarning] else []))"



text \<open>
  Modelled from the spec: the failure counter of a destination (spec sections 3 and
  4.8), kept by \<^verbatim>\<open>eventually_invalidate\<close>, whose code is not among the sources. It
  is incremented on each recorded failure and reset on success, so the failures recorded
  for the guild in the calls made so far bound it from above; a destination has exhausted
  a limit only if that many failures were recorded for it.
\<close>

definition failures_recorded :: "call list \<Rightarrow> guild_id \<Rightarrow> nat" where
  "failures_recorded calls g =
     length (filter (\<lambda>c. case c of
                            EventuallyInvalidate config limit \<Rightarrow> guild_id config = g
                          | EventuallyInvalidateRealmOffline config \<Rightarrow> guild_id config = g
                          | _ \<Rightarrow> False) calls)"

section \<open>Concrete inputs\<close>

text \<open>
  Realm \<open>1\<close> had \<open>A\<close> and \<open>B\<close> online and the poll returned \<open>B\<close> and \<open>C\<close>: the live
  update says that \<open>C\<close> joined and \<open>A\<close> left. The bot is fresh, and the n-th call of
  \<^verbatim>\<open>uuid4()\<close> returns \<open>100 + n\<close>.
\<close>

definition example_update :: live_playerlist_send where
  "example_update = \<lparr>lps_realm_id = ''1'', joined = {|''C''|}, left = {|''A''|}, lps_timestamp = 1000\<rparr>"

definition example_bot :: bot where
  "example_bot = new_bot (\<lambda>n. 100 + n)"

text \<open>
  An outside world in which no call raises, every guild is in the cache and has a
  premium code and the playerlist channel 500, every role exists and is mentionable,
  every player is displayed under its xuid, and the realm ids \<open>1\<close> and \<open>2\<close> are the
  numbers.
\<close>

definition example_config :: "guild_id \<Rightarrow> guild_config" where
  "example_config g =
     \<lparr>guild_id = g, config_realm_id = Some ''1'', club_id = None, playerlist_chan = Some 500,
      live_playerlist = True, fetch_devices = False, warning_notifications = True,
      realm_offline_role = Some 600, premium_code = Some 1\<rparr>"

definition example_env :: env where
  "example_env =
     \<lparr>raises = (\<lambda>c. None), stored_config = example_config, get_guild = (\<lambda>g. True),
      fetched_role = (\<lambda>g r. Some True), mention_everyone = (\<lambda>g. True),
      gamertags = (\<lambda>ss bypass. map (\<lambda>s. (xuid s, xuid s)) ss),
      py_int = (\<lambda>s. if s = ''1'' then Some 1 else if s = ''2'' then Some 2 else None),
      environ = [''GREEN_CIRCLE_EMOJI'' \<mapsto> ''+'', ''GRAY_CIRCLE_EMOJI'' \<mapsto> ''-'']\<rparr>"

text \<open>
  A session table at startup, ten minutes (600000000 microseconds) after time 0: \<open>A\<close>
  was last seen at time 0, \<open>B\<close> one minute ago, \<open>C\<close> is offline. And a config table: guild
  10 qualifies for the live playerlist, guild 11 has no premium code, guild 12 no channel,
  guild 13 has the live playerlist off.
\<close>

definition example_sessions :: "player_session list" where
  "example_sessions =
     [\<lparr>custom_id = 7, realm_id = ''1'', xuid = ''A'', online = True, last_seen = 0\<rparr>,
      \<lparr>custom_id = 8, realm_id = ''1'', xuid = ''B'', online = True, last_seen = 540000000\<rparr>,
      \<lparr>custom_id = 9, realm_id = ''1'', xuid = ''C'', online = False, last_seen = 0\<rparr>]"

definition example_configs :: "guild_config list" where
  "example_configs =
     [example_config 10,
      (example_config 11)\<lparr>premium_code := None\<rparr>,
      (example_config 12)\<lparr>playerlist_chan := None\<rparr>,
      (example_config 13)\<lparr>live_playerlist := False\<rparr>]"

text \<open>
  A parse whose container updates \<open>online\<close> and \<open>last_seen\<close>: \<open>A\<close> (correlation id 7, in
  the table already) went offline at time 50, and \<open>D\<close> (correlation id 20) is new.
\<close>

definition example_containers :: "container list" where
  "example_containers =
     [\<lparr>player_sessions =
         [\<lparr>custom_id = 7, realm_id = ''1'', xuid = ''A'', online = False, last_seen = 50\<rparr>,
          \<lparr>custom_id = 20, realm_id = ''1'', xuid = ''D'', online = True, last_seen = 50\<rparr>],
       container_fields = [F_online, F_last_seen]\<rparr>]"

text \<open>
  A parse with two containers that list different fields: the first updates \<open>online\<close>
  and \<open>last_seen\<close> of \<open>A\<close>; the second updates \<open>last_seen\<close> only, of \<open>B\<close>
  (correlation id 8, in the table and online there) and of the new \<open>D\<close>.
\<close>

definition example_containers_two :: "container list" where
  "example_containers_two =
     [\<lparr>player_sessions =
         [\<lparr>custom_id = 7, realm_id = ''1'', xuid = ''A'', online = False, last_seen = 50\<rparr>],
       container_fields = [F_online, F_last_seen]\<rparr>,
      \<lparr>player_sessions =
         [\<lparr>custom_id = 8, realm_id = ''1'', xuid = ''B'', online = False, last_seen = 60\<rparr>,
          \<lparr>custom_id = 20, realm_id = ''1'', xuid = ''D'', online = True, last_seen = 60\<rparr>],
       container_fields = [F_last_seen]\<rparr>]"

text \<open>
  Realm \<open>1\<close> goes down with \<open>A\<close> and \<open>B\<close> online, at time 2000; guilds 10 and 11 are
  subscribed to its live playerlist.
\<close>

definition example_realm_down :: realm_down_event where
  "example_realm_down =
     \<lparr>rd_realm_id = ''1'', disconnected = {|''A'', ''B''|}, rd_timestamp = 2000,
      rd_configs = [example_config 10]\<rparr>"

definition example_live_bot :: bot where
  "example_live_bot = example_bot\<lparr>live_playerlist_store := [''1'' \<mapsto> {|10, 11|}]\<rparr>"

text \<open>
  Worlds that differ from the example world in one point: guild 10 has lost its premium
  code (and has no channel either); sending to the channel of guild 10 fails with status
  403; the Realms API answers 404, or 500, when the realm is left.
\<close>

definition example_env_no_premium :: env where
  "example_env_no_premium =
     example_env\<lparr>stored_config :=
       (\<lambda>g. if g = 10 then (example_config 10)\<lparr>premium_code := None, playerlist_chan := None\<rparr>
            else example_config g)\<rparr>"

definition example_env_forbidden :: env where
  "example_env_forbidden =
     example_env\<lparr>raises :=
       (\<lambda>c. case c of ChanSend g m \<Rightarrow> if g = 10 then Some (HTTPException 403) else None
                     | _ \<Rightarrow> None)\<rparr>"

definition example_env_leave :: "int \<Rightarrow> env" where
  "example_env_leave status =
     example_env\<lparr>raises :=
       (\<lambda>c. case c of LeaveRealm r \<Rightarrow> Some (MicrosoftAPIException status) | _ \<Rightarrow> None)\<rparr>"

definition example_embed :: embed where
  "example_embed = \<lparr>embed_timestamp = 1000, embed_footer = 2, embed_fields = [(''+ Joined'', [''C''])]\<rparr>"


definition example_warning_no_channel :: warn_missing_playerlist where
  "example_warning_no_channel =
     \<lparr>wmp_realm_id = ''1'', wmp_configs = [(example_config 12)\<lparr>playerlist_chan := None\<rparr>]\<rparr>"


definition example_devices_bot :: bot where
  "example_devices_bot = example_live_bot\<lparr>fetch_devices_for := {|''1'', ''2''|}\<rparr>"

text \<open>
  The realm-down event and the warning with guilds 10 and 11 as destinations, both with a
  channel, an offline role and the warning notifications on.
\<close>

definition example_realm_down_two :: realm_down_event where
  "example_realm_down_two =
     \<lparr>rd_realm_id = ''1'', disconnected = {|''A'', ''B''|}, rd_timestamp = 2000,
      rd_configs = [example_config 10, example_config 11]\<rparr>"

definition example_warning_two :: warn_missing_playerlist where
  "example_warning_two =
     \<lparr>wmp_realm_id = ''1'', wmp_configs = [example_config 10, example_config 11]\<rparr>"

text \<open>
  Three more worlds that differ from the example world in one point: fetching a role of
  guild 10 fails with status 403; fetching the playerlist channel of guild 10 fails with
  status 403; guild 10 is not in the cache.
\<close>

definition example_env_role_forbidden :: env where
  "example_env_role_forbidden =
     example_env\<lparr>raises :=
       (\<lambda>c. case c of FetchRole g r \<Rightarrow> if g = 10 then Some (HTTPException 403) else None
                     | _ \<Rightarrow> None)\<rparr>"

definition example_env_fetch_forbidden :: env where
  "example_env_fetch_forbidden =
     example_env\<lparr>raises :=
       (\<lambda>c. case c of
               FetchPlayerlistChannel config \<Rightarrow>
                 if guild_id config = 10 then Some (HTTPException 403) else None
             | _ \<Rightarrow> None)\<rparr>"


text \<open>Realm \<open>1\<close> with \<open>A\<close> and \<open>B\<close> online, and no realm marked offline.\<close>

definition example_tracker :: tracker where
  "example_tracker =
     \<lparr>presence = (\<lambda>r. if r = ''1'' then {|''A'', ''B''|} else {||}), offline_realms = {||}\<rparr>"

section \<open>Iteration and the correlation-id cache\<close>

lemma distinct_iter_set: "distinct (iter_set s)"
  by (simp add: iter_set_def sorted_list_of_fset.rep_eq)

lemma set_iter_set: "set (iter_set s) = fset s"
  by (simp add: iter_set_def)

lemma uuid_cache_getitem_hit:
  "uuid_cache b key = Some u \<Longrightarrow> uuid_cache_getitem b key = (u, b)"
  by (simp add: uuid_cache_getitem_def)

lemma uuid_cache_getitem_stored:
  "uuid_cache (snd (uuid_cache_getitem b key)) key = Some (fst (uuid_cache_getitem b key))"
  by (simp add: uuid_cache_getitem_def Let_def split: option.splits)

lemma uuid_cache_getitem_keeps:
  "uuid_cache b k = Some u \<Longrightarrow> uuid_cache (snd (uuid_cache_getitem b key)) k = Some u"
  by (auto simp add: uuid_cache_getitem_def Let_def split: option.splits)

lemma resolve_all_keeps:
  "uuid_cache b k = Some u \<Longrightarrow> uuid_cache (resolve_all b rps) k = Some u"
  by (induction b rps rule: resolve_all.induct)
     (simp_all add: resolve_def uuid_cache_getitem_keeps)

lemma uuid4_drawn_getitem:
  "uuid4_drawn (snd (uuid_cache_getitem b key)) =
     (if uuid_cache b key = None then Suc (uuid4_drawn b) else uuid4_drawn b)"
  by (simp add: uuid_cache_getitem_def Let_def split: option.splits)

text \<open>
  C8. Resolving the pair (r, p) a second time returns the value of the first time and
  leaves the bot as it was, also after any other pairs were resolved in between; and
  \<^verbatim>\<open>uuid4()\<close> is called by a lookup exactly when the key of the pair is not in the
  cache yet.
\<close>

theorem resolve_twice_same:
  "fst (resolve (snd (resolve b r p)) r p) = fst (resolve b r p) \<and>
   snd (resolve (snd (resolve b r p)) r p) = snd (resolve b r p) \<and>
   resolve (resolve_all (snd (resolve b r p)) rps) r p =
     (fst (resolve b r p), resolve_all (snd (resolve b r p)) rps) \<and>
   uuid4_drawn (snd (resolve b r p)) =
     (if uuid_cache b (realm_xuid_key r p) = None then Suc (uuid4_drawn b) else uuid4_drawn b)"
proof -
  let ?k = "realm_xuid_key r p"
  let ?b1 = "snd (resolve b r p)"
  have stored: "uuid_cache ?b1 ?k = Some (fst (resolve b r p))"
    unfolding resolve_def by (rule uuid_cache_getitem_stored)
  have again: "resolve ?b1 r p = (fst (resolve b r p), ?b1)"
    using uuid_cache_getitem_hit [OF stored] by (simp add: resolve_def)
  have later: "uuid_cache (resolve_all ?b1 rps) ?k = Some (fst (resolve b r p))"
    by (rule resolve_all_keeps [OF stored])
  have third: "resolve (resolve_all ?b1 rps) r p = (fst (resolve b r p), resolve_all ?b1 rps)"
    using uuid_cache_getitem_hit [OF later] by (simp add: resolve_def)
  have drawn: "uuid4_drawn ?b1 =
      (if uuid_cache b ?k = None then Suc (uuid4_drawn b) else uuid4_drawn b)"
    unfolding resolve_def by (rule uuid4_drawn_getitem)
  from again third drawn show ?thesis by simp
qed

theorem resolve_twice_same_witness:
  "fst (resolve example_bot ''1'' ''A'') = 100 \<and>
   fst (resolve (snd (resolve example_bot ''1'' ''A'')) ''1'' ''A'') = 100 \<and>
   fst (resolve (resolve_all (snd (resolve example_bot ''1'' ''A'')) [(''1'', ''B''), (''2'', ''A'')])
          ''1'' ''A'') = 100 \<and>
   uuid4_drawn (snd (resolve example_bot ''1'' ''A'')) = 1"
proof -
  have first: "fst (resolve example_bot ''1'' ''A'') = 100"
    by (simp add: resolve_def uuid_cache_getitem_def example_bot_def new_bot_def)
  have empty: "uuid_cache example_bot (realm_xuid_key ''1'' ''A'') = None"
    by (simp add: example_bot_def new_bot_def)
  have drawn: "uuid4_drawn example_bot = 0"
    by (simp add: example_bot_def new_bot_def)
  show ?thesis
    using resolve_twice_same [of example_bot "''1''" "''A''" "[(''1'', ''B''), (''2'', ''A'')]"]
      first empty drawn
    by simp
qed

section \<open>The session rows of a live update\<close>

lemma build_player_sessions_xuids:
  "map xuid (fst (build_player_sessions ev ps b)) = ps"
  by (induction ps arbitrary: b) (simp_all add: Let_def split_beta)

lemma build_player_sessions_rows:
  "r \<in> set (fst (build_player_sessions ev ps b)) \<Longrightarrow>
     realm_id r = lps_realm_id ev \<and> last_seen r = lps_timestamp ev \<and>
     online r = (xuid r |\<in>| joined ev)"
  by (induction ps arbitrary: b) (auto simp add: Let_def split_beta)

text \<open>
  C1. For a live update whose joined and left sets are disjoint, the rows built by the
  handler carry pairwise different participants, the participants of the rows are
  exactly those of joined and left together (so there is one row for each of them and
  none for anybody else), and every row has the realm and the timestamp of the event and
  is online if its participant joined and offline if it left.
\<close>

theorem live_update_rows:
  assumes "joined ev |\<inter>| left ev = {||}"
  shows "distinct (map xuid (fst (player_sessions_of ev b))) \<and>
     set (map xuid (fst (player_sessions_of ev b))) = fset (joined ev) \<union> fset (left ev) \<and>
     (\<forall>r \<in> set (fst (player_sessions_of ev b)).
        realm_id r = lps_realm_id ev \<and> last_seen r = lps_timestamp ev \<and>
        (xuid r |\<in>| joined ev \<longrightarrow> online r) \<and> (xuid r |\<in>| left ev \<longrightarrow> \<not> online r))"
proof -
  have xs: "map xuid (fst (player_sessions_of ev b)) = iter_set (joined ev |\<union>| left ev)"
    by (simp add: player_sessions_of_def build_player_sessions_xuids)
  have disj: "\<And>p. p |\<in>| left ev \<Longrightarrow> \<not> p |\<in>| joined ev"
    using assms by auto
  have rows: "\<And>r. r \<in> set (fst (player_sessions_of ev b)) \<Longrightarrow>
        realm_id r = lps_realm_id ev \<and> last_seen r = lps_timestamp ev \<and>
        (xuid r |\<in>| joined ev \<longrightarrow> online r) \<and> (xuid r |\<in>| left ev \<longrightarrow> \<not> online r)"
    using build_player_sessions_rows disj unfolding player_sessions_of_def by blast
  show ?thesis
    unfolding xs using rows by (simp add: distinct_iter_set set_iter_set)
qed

lemma example_update_rows:
  "fst (player_sessions_of example_update example_bot) =
     [\<lparr>custom_id = 100, realm_id = ''1'', xuid = ''A'', online = False, last_seen = 1000\<rparr>,
      \<lparr>custom_id = 101, realm_id = ''1'', xuid = ''C'', online = True, last_seen = 1000\<rparr>]"
  by code_simp

theorem live_update_rows_witness:
  "joined example_update |\<inter>| left example_update = {||} \<and>
   distinct (map xuid (fst (player_sessions_of example_update example_bot))) \<and>
   set (map xuid (fst (player_sessions_of example_update example_bot))) = {''A'', ''C''} \<and>
   map (\<lambda>r. (xuid r, online r, last_seen r)) (fst (player_sessions_of example_update example_bot)) =
     [(''A'', False, 1000), (''C'', True, 1000)]"
proof -
  have disjoint: "joined example_update |\<inter>| left example_update = {||}"
    by (simp add: example_update_def)
  have sets: "fset (joined example_update) \<union> fset (left example_update) = {''A'', ''C''}"
    by (auto simp add: example_update_def)
  have rows: "map (\<lambda>r. (xuid r, online r, last_seen r))
      (fst (player_sessions_of example_update example_bot)) =
      [(''A'', False, 1000), (''C'', True, 1000)]"
    by (simp add: example_update_rows)
  from live_update_rows [OF disjoint, of example_bot]
  have "distinct (map xuid (fst (player_sessions_of example_update example_bot)))"
    and "set (map xuid (fst (player_sessions_of example_update example_bot))) =
      fset (joined example_update) \<union> fset (left example_update)"
    by blast+
  with disjoint sets rows show ?thesis by simp
qed

section \<open>Startup\<close>

lemma set_at_add:
  "set_at (defaultdict_set_add d k x) k' = (if k' = k then finsert x (set_at d k) else set_at d k')"
  by (simp add: set_at_def defaultdict_set_add_def defaultdict_set_getitem_def split: option.splits)

lemma mark_stale_offline_length: "length (mark_stale_offline utcnow table) = length table"
  by (simp add: mark_stale_offline_def)

lemma mark_stale_offline_nth:
  "i < length table \<Longrightarrow> mark_stale_offline utcnow table ! i =
     (if online (table ! i) \<and> last_seen (table ! i) < utcnow - 5 * 60 * 1000000
      then (table ! i)\<lparr>online := False\<rparr> else table ! i)"
  by (simp add: mark_stale_offline_def five_minutes_def)

lemma mark_stale_offline_online:
  "p \<in> set (mark_stale_offline utcnow table) \<Longrightarrow> online p \<Longrightarrow>
     p \<in> set table \<and> utcnow - 5 * 60 * 1000000 \<le> last_seen p"
  by (auto simp add: mark_stale_offline_def five_minutes_def Let_def split: if_splits)

lemma seed_online_cache_step:
  "py_int e (realm_id player) = Some m \<Longrightarrow>
   seed_online_cache e (player # players) b =
     seed_online_cache e players
       (b\<lparr>uuid_cache := (uuid_cache b)(realm_xuid_id player \<mapsto> custom_id player),
          online_cache := defaultdict_set_add (online_cache b) m (xuid player)\<rparr>)"
  by (simp add: Let_def)

lemma seed_online_cache_stop:
  "py_int e (realm_id player) = None \<Longrightarrow>
   seed_online_cache e (player # players) b =
     (Some ValueError, b\<lparr>uuid_cache := (uuid_cache b)(realm_xuid_id player \<mapsto> custom_id player)\<rparr>)"
  by (simp add: Let_def)

lemma seed_online_cache_only:
  "x |\<in>| set_at (online_cache (snd (seed_online_cache e ps b))) n \<Longrightarrow>
     x |\<in>| set_at (online_cache b) n \<or> (\<exists>p \<in> set ps. xuid p = x \<and> py_int e (realm_id p) = Some n)"
proof (induction ps arbitrary: b)
  case Nil
  then show ?case by simp
next
  case (Cons player players)
  show ?case
  proof (cases "py_int e (realm_id player)")
    case None
    with Cons.prems show ?thesis by (simp add: seed_online_cache_stop)
  next
    case (Some m)
    from Cons.prems have "x |\<in>| set_at (online_cache (snd (seed_online_cache e players
        (b\<lparr>uuid_cache := (uuid_cache b)(realm_xuid_id player \<mapsto> custom_id player),
           online_cache := defaultdict_set_add (online_cache b) m (xuid player)\<rparr>)))) n"
      by (simp only: seed_online_cache_step [OF Some])
    from Cons.IH [OF this] Some show ?thesis
      by (auto simp add: set_at_add split: if_splits)
  qed
qed

lemma seed_online_cache_grows:
  "x |\<in>| set_at (online_cache b) n \<Longrightarrow>
     x |\<in>| set_at (online_cache (snd (seed_online_cache e ps b))) n"
proof (induction ps arbitrary: b)
  case Nil
  then show ?case by simp
next
  case (Cons player players)
  show ?case
  proof (cases "py_int e (realm_id player)")
    case None
    with Cons.prems show ?thesis by (simp add: seed_online_cache_stop)
  next
    case (Some m)
    show ?thesis
      unfolding seed_online_cache_step [OF Some]
      by (rule Cons.IH) (use Cons.prems in \<open>auto simp add: set_at_add\<close>)
  qed
qed

lemma seed_online_cache_all:
  "fst (seed_online_cache e ps b) = None \<Longrightarrow> p \<in> set ps \<Longrightarrow>
     \<exists>n. py_int e (realm_id p) = Some n \<and>
         xuid p |\<in>| set_at (online_cache (snd (seed_online_cache e ps b))) n"
proof (induction ps arbitrary: b)
  case Nil
  then show ?case by simp
next
  case (Cons player players)
  show ?case
  proof (cases "py_int e (realm_id player)")
    case None
    with Cons.prems show ?thesis by (simp add: seed_online_cache_stop)
  next
    case (Some m)
    let ?b2 = "b\<lparr>uuid_cache := (uuid_cache b)(realm_xuid_id player \<mapsto> custom_id player),
                 online_cache := defaultdict_set_add (online_cache b) m (xuid player)\<rparr>"
    have step: "seed_online_cache e (player # players) b = seed_online_cache e players ?b2"
      by (rule seed_online_cache_step [OF Some])
    from Cons.prems(1) have ok: "fst (seed_online_cache e players ?b2) = None"
      by (simp only: step)
    show ?thesis
    proof (cases "p = player")
      case True
      have "xuid player |\<in>| set_at (online_cache ?b2) m"
        by (simp add: set_at_add)
      then have "xuid player |\<in>| set_at (online_cache (snd (seed_online_cache e players ?b2))) m"
        by (rule seed_online_cache_grows)
      with True Some show ?thesis by (simp only: step) blast
    next
      case False
      with Cons.prems(2) have "p \<in> set players" by simp
      from Cons.IH [OF ok this] show ?thesis by (simp only: step)
    qed
  qed
qed

lemma seed_online_cache_store:
  "live_playerlist_store (snd (seed_online_cache e ps b)) = live_playerlist_store b"
  by (induction ps arbitrary: b) (simp_all add: Let_def split: option.splits)

lemma set_at_new_bot: "set_at (online_cache (new_bot uuids)) n = {||}"
  by (simp add: set_at_def new_bot_def)

lemma start_sessions:
  "fst (snd (start e utcnow sessions configs b)) = mark_stale_offline utcnow sessions"
  by (simp add: start_def Let_def split: prod.splits option.splits)

lemma start_online_cache:
  "online_cache (snd (snd (start e utcnow sessions configs b))) =
     online_cache (snd (seed_online_cache e (filter online (mark_stale_offline utcnow sessions)) b))"
proof -
  have keep: "\<And>cs b. online_cache (seed_live_playerlist_store cs b) = online_cache b"
  proof -
    fix cs :: "guild_config list" and b :: bot
    show "online_cache (seed_live_playerlist_store cs b) = online_cache b"
      by (induction cs arbitrary: b) (simp_all split: option.splits)
  qed
  show ?thesis
    by (simp add: start_def Let_def keep split: prod.splits option.splits)
qed

lemma start_result:
  "fst (start e utcnow sessions configs b) =
     fst (seed_online_cache e (filter online (mark_stale_offline utcnow sessions)) b)"
  by (simp add: start_def Let_def split: prod.splits option.splits)

text \<open>
  C2. \<^verbatim>\<open>start\<close> on a fresh bot: the session table keeps its length; a row that was
  online and last seen more than five minutes before \<open>utcnow\<close> is the same row set
  offline, and every other row is unchanged. Whoever is then in the online cache of a
  realm comes from a row that is still online in the table, hence from a row that was
  online and last seen no more than five minutes ago; and when \<^verbatim>\<open>start\<close> does not
  stop on an exception, every row still online is in the cache.
\<close>

theorem startup_recovery:
  assumes "start e utcnow sessions configs (new_bot uuids) = (res, sessions', b')"
  shows "length sessions' = length sessions \<and>
    (\<forall>i < length sessions.
       sessions' ! i =
         (if online (sessions ! i) \<and> last_seen (sessions ! i) < utcnow - 5 * 60 * 1000000
          then (sessions ! i)\<lparr>online := False\<rparr> else sessions ! i)) \<and>
    (\<forall>n x. x |\<in>| set_at (online_cache b') n \<longrightarrow>
       (\<exists>p \<in> set sessions'. online p \<and> utcnow - 5 * 60 * 1000000 \<le> last_seen p \<and>
          p \<in> set sessions \<and> xuid p = x \<and> py_int e (realm_id p) = Some n)) \<and>
    (res = None \<longrightarrow>
       (\<forall>p \<in> set sessions'. online p \<longrightarrow>
          (\<exists>n. py_int e (realm_id p) = Some n \<and> xuid p |\<in>| set_at (online_cache b') n)))"
proof -
  let ?b0 = "new_bot uuids"
  let ?rows = "filter online (mark_stale_offline utcnow sessions)"
  from assms have s': "sessions' = mark_stale_offline utcnow sessions"
    using start_sessions [of e utcnow sessions configs ?b0] by simp
  from assms have oc: "online_cache b' = online_cache (snd (seed_online_cache e ?rows ?b0))"
    using start_online_cache [of e utcnow sessions configs ?b0] by simp
  from assms have res: "res = fst (seed_online_cache e ?rows ?b0)"
    using start_result [of e utcnow sessions configs ?b0] by simp
  have len: "length sessions' = length sessions"
    by (simp add: s' mark_stale_offline_length)
  have nth: "\<forall>i < length sessions.
       sessions' ! i =
         (if online (sessions ! i) \<and> last_seen (sessions ! i) < utcnow - 5 * 60 * 1000000
          then (sessions ! i)\<lparr>online := False\<rparr> else sessions ! i)"
    by (simp add: s' mark_stale_offline_nth)
  have only: "\<forall>n x. x |\<in>| set_at (online_cache b') n \<longrightarrow>
       (\<exists>p \<in> set sessions'. online p \<and> utcnow - 5 * 60 * 1000000 \<le> last_seen p \<and>
          p \<in> set sessions \<and> xuid p = x \<and> py_int e (realm_id p) = Some n)"
  proof (intro allI impI)
    fix n x
    assume "x |\<in>| set_at (online_cache b') n"
    then have "x |\<in>| set_at (online_cache (snd (seed_online_cache e ?rows ?b0))) n"
      by (simp add: oc)
    from seed_online_cache_only [OF this]
    obtain p where p: "p \<in> set ?rows" "xuid p = x" "py_int e (realm_id p) = Some n"
      by (auto simp add: set_at_new_bot)
    then have in_table: "p \<in> set (mark_stale_offline utcnow sessions)" and on: "online p"
      by simp_all
    from mark_stale_offline_online [OF in_table on] p in_table on
    show "\<exists>p \<in> set sessions'. online p \<and> utcnow - 5 * 60 * 1000000 \<le> last_seen p \<and>
          p \<in> set sessions \<and> xuid p = x \<and> py_int e (realm_id p) = Some n"
      unfolding s' by blast
  qed
  have all: "res = None \<longrightarrow>
       (\<forall>p \<in> set sessions'. online p \<longrightarrow>
          (\<exists>n. py_int e (realm_id p) = Some n \<and> xuid p |\<in>| set_at (online_cache b') n))"
  proof (intro impI ballI)
    fix p
    assume "res = None" and "p \<in> set sessions'" and "online p"
    then have ok: "fst (seed_online_cache e ?rows ?b0) = None" and "p \<in> set ?rows"
      by (simp_all add: res s')
    from seed_online_cache_all [OF this]
    show "\<exists>n. py_int e (realm_id p) = Some n \<and> xuid p |\<in>| set_at (online_cache b') n"
      by (simp add: oc)
  qed
  from len nth only all show ?thesis by blast
qed

lemma example_start:
  "fst (start example_env 600000000 example_sessions example_configs example_bot) = None \<and>
   map online (fst (snd (start example_env 600000000 example_sessions example_configs example_bot))) =
     [False, True, False] \<and>
   set_at (online_cache (snd (snd (start example_env 600000000 example_sessions example_configs example_bot)))) 1 =
     {|''B''|} \<and>
   set_at (live_playerlist_store (snd (snd (start example_env 600000000 example_sessions example_configs example_bot)))) ''1'' =
     {|10|}"
  by code_simp

theorem startup_recovery_witness:
  "online (example_sessions ! 0) \<and>
   last_seen (example_sessions ! 0) < 600000000 - 5 * 60 * 1000000 \<and>
   fst (snd (start example_env 600000000 example_sessions example_configs (new_bot (\<lambda>n. 100 + n)))) ! 0 =
     (example_sessions ! 0)\<lparr>online := False\<rparr> \<and>
   set_at (online_cache (snd (snd (start example_env 600000000 example_sessions example_configs
     (new_bot (\<lambda>n. 100 + n)))))) 1 = {|''B''|}"
proof -
  let ?run = "start example_env 600000000 example_sessions example_configs (new_bot (\<lambda>n. 100 + n))"
  have run: "?run = (fst ?run, fst (snd ?run), snd (snd ?run))"
    by simp
  have row: "online (example_sessions ! 0)"
    "last_seen (example_sessions ! 0) < 600000000 - 5 * 60 * 1000000"
    "0 < length example_sessions"
    by (simp_all add: example_sessions_def)
  have cache: "set_at (online_cache (snd (snd ?run))) 1 = {|''B''|}"
    using example_start by (simp add: example_bot_def)
  from startup_recovery [OF run]
  have "\<forall>i < length example_sessions.
       fst (snd ?run) ! i =
         (if online (example_sessions ! i) \<and>
             last_seen (example_sessions ! i) < 600000000 - 5 * 60 * 1000000
          then (example_sessions ! i)\<lparr>online := False\<rparr> else example_sessions ! i)"
    by blast
  with row have "fst (snd ?run) ! 0 = (example_sessions ! 0)\<lparr>online := False\<rparr>"
    by simp
  with row cache show ?thesis by simp
qed

lemma set_at_store_new_bot: "set_at (live_playerlist_store (new_bot uuids)) r = {||}"
  by (simp add: set_at_def new_bot_def)

lemma seed_live_playerlist_store_members:
  "(g |\<in>| set_at (live_playerlist_store (seed_live_playerlist_store cs b)) r) =
     (g |\<in>| set_at (live_playerlist_store b) r \<or>
      (\<exists>c \<in> set cs. guild_id c = g \<and> config_realm_id c = Some r \<and> live_playerlist_filter c))"
proof (induction cs arbitrary: b)
  case Nil
  show ?case by simp
next
  case (Cons c cs)
  show ?case
  proof (cases "config_realm_id c")
    case None
    then show ?thesis by (simp add: Cons.IH)
  next
    case (Some rid)
    then show ?thesis by (auto simp add: Cons.IH set_at_add)
  qed
qed

lemma start_store:
  "fst (start e utcnow sessions configs b) = None \<Longrightarrow>
   live_playerlist_store (snd (snd (start e utcnow sessions configs b))) =
     live_playerlist_store (seed_live_playerlist_store configs
       (snd (seed_online_cache e (filter online (mark_stale_offline utcnow sessions)) b)))"
  by (simp add: start_def Let_def split: prod.splits option.splits)

text \<open>
  C10. When \<^verbatim>\<open>start\<close> on a fresh bot does not stop on an exception, guild \<open>g\<close> is in
  the live playerlist store of realm \<open>r\<close> exactly when the config table has a row of
  guild \<open>g\<close> and realm \<open>r\<close> with a premium code, a playerlist channel and the live
  playerlist switched on.
\<close>

theorem live_store_seeded:
  assumes "start e utcnow sessions configs (new_bot uuids) = (None, sessions', b')"
  shows "(g |\<in>| set_at (live_playerlist_store b') r) =
     (\<exists>c \<in> set configs. guild_id c = g \<and> config_realm_id c = Some r \<and>
        premium_code c \<noteq> None \<and> playerlist_chan c \<noteq> None \<and> live_playerlist c)"
proof -
  let ?b1 = "snd (seed_online_cache e (filter online (mark_stale_offline utcnow sessions)) (new_bot uuids))"
  from assms have "live_playerlist_store b' = live_playerlist_store (seed_live_playerlist_store configs ?b1)"
    using start_store [of e utcnow sessions configs "new_bot uuids"] by simp
  moreover have "set_at (live_playerlist_store ?b1) r = {||}"
    by (simp add: seed_online_cache_store set_at_store_new_bot)
  ultimately show ?thesis
    by (simp add: seed_live_playerlist_store_members live_playerlist_filter_def) blast
qed

theorem live_store_seeded_witness:
  "fst (start example_env 600000000 example_sessions example_configs (new_bot (\<lambda>n. 100 + n))) = None \<and>
   (\<exists>c \<in> set example_configs. guild_id c = 10 \<and> config_realm_id c = Some ''1'' \<and>
      premium_code c \<noteq> None \<and> playerlist_chan c \<noteq> None \<and> live_playerlist c) \<and>
   \<not> (\<exists>c \<in> set example_configs. guild_id c = 11 \<and> config_realm_id c = Some ''1'' \<and>
      premium_code c \<noteq> None \<and> playerlist_chan c \<noteq> None \<and> live_playerlist c) \<and>
   set_at (live_playerlist_store (snd (snd (start example_env 600000000 example_sessions
      example_configs (new_bot (\<lambda>n. 100 + n)))))) ''1'' = {|10|}"
proof -
  let ?run = "start example_env 600000000 example_sessions example_configs (new_bot (\<lambda>n. 100 + n))"
  have ok: "fst ?run = None"
    and store: "set_at (live_playerlist_store (snd (snd ?run))) ''1'' = {|10|}"
    using example_start by (simp_all add: example_bot_def)
  from ok have run: "?run = (None, fst (snd ?run), snd (snd ?run))"
    by (metis prod.collapse)
  from live_store_seeded [OF run, of 10 "''1''"] live_store_seeded [OF run, of 11 "''1''"] ok store
  show ?thesis by simp
qed

section \<open>The upsert of parsed sessions\<close>

lemma conflicts_custom_id: "conflicts [F_custom_id] r t = (custom_id r = custom_id t)"
  by (simp add: conflicts_def)

lemma fold_copy_field:
  "fold (copy_field r) fs t =
     \<lparr>custom_id = (if F_custom_id \<in> set fs then custom_id r else custom_id t),
      realm_id = (if F_realm_id \<in> set fs then realm_id r else realm_id t),
      xuid = (if F_xuid \<in> set fs then xuid r else xuid t),
      online = (if F_online \<in> set fs then online r else online t),
      last_seen = (if F_last_seen \<in> set fs then last_seen r else last_seen t)\<rparr>"
proof (induction fs arbitrary: t)
  case Nil
  show ?case by simp
next
  case (Cons f fs)
  show ?case by (cases f) (simp_all add: Cons.IH)
qed

lemma fold_copy_field_idem:
  "fold (copy_field r) fs (fold (copy_field r) fs t) = fold (copy_field r) fs t"
  by (simp add: fold_copy_field)

lemma fold_copy_field_id:
  "custom_id r = custom_id t \<Longrightarrow> custom_id (fold (copy_field r) fs t) = custom_id t"
  by (simp add: fold_copy_field)

lemma same_field_fold:
  "same_field f (fold (copy_field r) fs t) (if f \<in> set fs then r else t)"
  by (cases f) (simp_all add: fold_copy_field)

text \<open>The upsert with the conflict key of the handler, in one equation.\<close>

lemma upsert_custom_id:
  "upsert [F_custom_id] uf r table =
     (if custom_id r \<in> custom_id ` set table
      then map (\<lambda>t. if custom_id t = custom_id r then fold (copy_field r) uf t else t) table
      else table @ [r])"
proof -
  have ex: "list_ex (conflicts [F_custom_id] r) table = (custom_id r \<in> custom_id ` set table)"
    by (auto simp add: list_ex_iff conflicts_custom_id)
  have "map (\<lambda>t. if conflicts [F_custom_id] r t then fold (copy_field r) uf t else t) table =
        map (\<lambda>t. if custom_id t = custom_id r then fold (copy_field r) uf t else t) table"
    by (rule map_cong) (auto simp add: conflicts_custom_id)
  with ex show ?thesis by (simp add: upsert_def)
qed

lemma upsert_ids:
  "map custom_id (upsert [F_custom_id] uf r table) =
     (if custom_id r \<in> custom_id ` set table then map custom_id table
      else map custom_id table @ [custom_id r])"
proof -
  have "map (custom_id \<circ> (\<lambda>t. if custom_id t = custom_id r then fold (copy_field r) uf t else t)) table =
        map custom_id table"
    by (rule map_cong) (auto simp add: fold_copy_field)
  then show ?thesis by (simp add: upsert_custom_id)
qed

lemma fold_copy_field_self: "fold (copy_field r) fs r = r"
  by (simp add: fold_copy_field)

lemma upsert_hit:
  "custom_id r \<in> custom_id ` set table \<Longrightarrow>
     upsert [F_custom_id] uf r table =
       map (\<lambda>t. if custom_id t = custom_id r then fold (copy_field r) uf t else t) table"
  by (simp add: upsert_custom_id)

lemma upsert_miss:
  "custom_id r \<notin> custom_id ` set table \<Longrightarrow> upsert [F_custom_id] uf r table = table @ [r]"
  by (simp add: upsert_custom_id)

lemma upserts_Nil: "upserts [] table = table"
  by (simp add: upserts_def)

lemma upserts_Cons: "upserts ((r, uf) # ops) table = upserts ops (upsert [F_custom_id] uf r table)"
  by (simp add: upserts_def)

lemma upserts_append: "upserts (ops @ ops') table = upserts ops' (upserts ops table)"
  by (simp add: upserts_def)

lemma bulk_create_upserts:
  "bulk_create rows [F_custom_id] uf table = upserts (map (\<lambda>r. (r, uf)) rows) table"
  by (simp add: bulk_create_def upserts_def fold_map comp_def)

lemma on_playerlist_finish_upserts:
  "on_playerlist_finish cs table = upserts (session_ops cs) table"
proof (induction cs arbitrary: table)
  case Nil
  show ?case by (simp add: on_playerlist_finish_def session_ops_def upserts_def)
next
  case (Cons c cs)
  have "on_playerlist_finish (c # cs) table =
        on_playerlist_finish cs (bulk_create (player_sessions c) [F_custom_id] (container_fields c) table)"
    by (simp add: on_playerlist_finish_def)
  also have "\<dots> = upserts (session_ops cs)
        (upserts (map (\<lambda>r. (r, container_fields c)) (player_sessions c)) table)"
    by (simp add: Cons.IH bulk_create_upserts)
  also have "\<dots> = upserts (session_ops (c # cs)) table"
    by (simp add: session_ops_def upserts_append)
  finally show ?case .
qed

lemma session_ops_ids:
  "map (\<lambda>op. custom_id (fst op)) (session_ops cs) =
     concat (map (\<lambda>c. map custom_id (player_sessions c)) cs)"
  by (induction cs) (simp_all add: session_ops_def comp_def)

lemma session_ops_id_set:
  "(\<lambda>op. custom_id (fst op)) ` set (session_ops cs) =
     (\<Union>c \<in> set cs. custom_id ` set (player_sessions c))"
proof -
  have "set (map (\<lambda>op. custom_id (fst op)) (session_ops cs)) =
        set (concat (map (\<lambda>c. map custom_id (player_sessions c)) cs))"
    by (simp only: session_ops_ids)
  then show ?thesis by simp
qed

lemma upsert_id_set:
  "custom_id ` set (upsert [F_custom_id] uf r table) = insert (custom_id r) (custom_id ` set table)"
proof -
  have "set (map custom_id (upsert [F_custom_id] uf r table)) =
        insert (custom_id r) (set (map custom_id table))"
    by (auto simp add: upsert_ids)
  then show ?thesis by simp
qed

lemma upserts_id_set:
  "custom_id ` set (upserts ops table) =
     custom_id ` set table \<union> (\<lambda>op. custom_id (fst op)) ` set ops"
proof (induction ops arbitrary: table)
  case Nil
  show ?case by (simp add: upserts_Nil)
next
  case (Cons op ops)
  obtain r uf where op: "op = (r, uf)" by (cases op)
  show ?case
    unfolding op upserts_Cons Cons.IH upsert_id_set by auto
qed

lemma upserts_ids_distinct:
  "distinct (map custom_id table) \<Longrightarrow> distinct (map custom_id (upserts ops table))"
proof (induction ops arbitrary: table)
  case Nil
  then show ?case by (simp add: upserts_Nil)
next
  case (Cons op ops)
  obtain r uf where op: "op = (r, uf)" by (cases op)
  from Cons.prems have "distinct (map custom_id (upsert [F_custom_id] uf r table))"
    by (simp add: upsert_ids)
  then show ?case
    unfolding op upserts_Cons by (rule Cons.IH)
qed

lemma upserts_ids_covered:
  "(\<lambda>op. custom_id (fst op)) ` set ops \<subseteq> custom_id ` set table \<Longrightarrow>
     map custom_id (upserts ops table) = map custom_id table"
proof (induction ops arbitrary: table)
  case Nil
  show ?case by (simp add: upserts_Nil)
next
  case (Cons op ops)
  obtain r uf where op: "op = (r, uf)" by (cases op)
  from Cons.prems have hit: "custom_id r \<in> custom_id ` set table"
    by (simp add: op)
  then have ids: "map custom_id (upsert [F_custom_id] uf r table) = map custom_id table"
    by (simp add: upsert_ids)
  from Cons.prems have "(\<lambda>op. custom_id (fst op)) ` set ops \<subseteq> custom_id ` set (upsert [F_custom_id] uf r table)"
    by (auto simp add: upsert_id_set)
  from Cons.IH [OF this] show ?case
    unfolding op upserts_Cons by (simp add: ids)
qed

lemma settled_iff:
  "settled r uf table =
     ((\<exists>t \<in> set table. custom_id t = custom_id r) \<and>
      (\<forall>t \<in> set table. custom_id t = custom_id r \<longrightarrow> fold (copy_field r) uf t = t))"
  by (auto simp add: settled_def list_ex_iff list_all_iff)

lemma settled_after: "settled r uf (upsert [F_custom_id] uf r table)"
proof (cases "custom_id r \<in> custom_id ` set table")
  case True
  let ?g = "\<lambda>t. if custom_id t = custom_id r then fold (copy_field r) uf t else t"
  have id_g: "\<And>t. custom_id (?g t) = custom_id t"
    by (simp add: fold_copy_field_id)
  have fix_g: "\<And>t. custom_id t = custom_id r \<Longrightarrow> fold (copy_field r) uf (?g t) = ?g t"
    by (simp add: fold_copy_field_idem)
  from True obtain t0 where t0: "t0 \<in> set table" "custom_id t0 = custom_id r"
    by auto
  have ex: "\<exists>t \<in> set (map ?g table). custom_id t = custom_id r"
  proof
    show "?g t0 \<in> set (map ?g table)" using t0(1) by simp
    show "custom_id (?g t0) = custom_id r" using t0(2) id_g [of t0] by simp
  qed
  have all: "\<forall>t \<in> set (map ?g table). custom_id t = custom_id r \<longrightarrow> fold (copy_field r) uf t = t"
  proof (intro ballI impI)
    fix t'
    assume "t' \<in> set (map ?g table)" and k: "custom_id t' = custom_id r"
    then obtain t where t: "t \<in> set table" "t' = ?g t" by auto
    from k t(2) id_g [of t] have "custom_id t = custom_id r" by simp
    from fix_g [OF this] t(2) show "fold (copy_field r) uf t' = t'" by simp
  qed
  from ex all show ?thesis
    unfolding upsert_hit [OF True] settled_iff by blast
next
  case False
  then have "\<forall>t \<in> set table. custom_id t \<noteq> custom_id r"
    by (metis imageI)
  then show ?thesis
    unfolding upsert_miss [OF False] settled_iff
    by (simp add: fold_copy_field_self)
qed

lemma settled_kept:
  assumes other: "custom_id r' \<noteq> custom_id r" and s: "settled r uf table"
  shows "settled r uf (upsert [F_custom_id] uf' r' table)"
proof (cases "custom_id r' \<in> custom_id ` set table")
  case True
  let ?g = "\<lambda>t. if custom_id t = custom_id r' then fold (copy_field r') uf' t else t"
  have id_g: "\<And>t. custom_id (?g t) = custom_id t"
    by (simp add: fold_copy_field_id)
  have same: "\<And>t. custom_id t = custom_id r \<Longrightarrow> ?g t = t"
    using other by simp
  from s obtain t0 where t0: "t0 \<in> set table" "custom_id t0 = custom_id r"
    unfolding settled_iff by blast
  have ex: "\<exists>t \<in> set (map ?g table). custom_id t = custom_id r"
  proof
    show "?g t0 \<in> set (map ?g table)" using t0(1) by simp
    show "custom_id (?g t0) = custom_id r" using t0(2) id_g [of t0] by simp
  qed
  have all: "\<forall>t \<in> set (map ?g table). custom_id t = custom_id r \<longrightarrow> fold (copy_field r) uf t = t"
  proof (intro ballI impI)
    fix t'
    assume "t' \<in> set (map ?g table)" and k: "custom_id t' = custom_id r"
    then obtain t where t: "t \<in> set table" "t' = ?g t" by auto
    from k t(2) id_g [of t] have kt: "custom_id t = custom_id r" by simp
    with same [OF kt] t(2) have "t' = t" by simp
    with s t(1) kt show "fold (copy_field r) uf t' = t'"
      unfolding settled_iff by blast
  qed
  from ex all show ?thesis
    unfolding upsert_hit [OF True] settled_iff by blast
next
  case False
  from s other show ?thesis
    unfolding upsert_miss [OF False] settled_iff by auto
qed

lemma settled_noop: "settled r uf table \<Longrightarrow> upsert [F_custom_id] uf r table = table"
proof -
  assume s: "settled r uf table"
  then obtain t0 where "t0 \<in> set table" "custom_id t0 = custom_id r"
    unfolding settled_iff by blast
  then have hit: "custom_id r \<in> custom_id ` set table"
    by (metis imageI)
  have "map (\<lambda>t. if custom_id t = custom_id r then fold (copy_field r) uf t else t) table = table"
    using s by (intro map_idI) (auto simp add: settled_iff)
  then show ?thesis by (simp add: upsert_hit [OF hit])
qed

lemma settled_kept_upserts:
  "custom_id r \<notin> (\<lambda>op. custom_id (fst op)) ` set ops \<Longrightarrow> settled r uf table \<Longrightarrow>
     settled r uf (upserts ops table)"
proof (induction ops arbitrary: table)
  case Nil
  then show ?case by (simp add: upserts_Nil)
next
  case (Cons op ops)
  obtain r' uf' where op: "op = (r', uf')" by (cases op)
  from Cons.prems(1) have other: "custom_id r' \<noteq> custom_id r"
    and rest: "custom_id r \<notin> (\<lambda>op. custom_id (fst op)) ` set ops"
    by (auto simp add: op)
  from settled_kept [OF other Cons.prems(2)]
  have "settled r uf (upsert [F_custom_id] uf' r' table)" .
  from Cons.IH [OF rest this] show ?case by (simp add: op upserts_Cons)
qed

lemma upserts_settle:
  "distinct (map (\<lambda>op. custom_id (fst op)) ops) \<Longrightarrow> (r, uf) \<in> set ops \<Longrightarrow>
     settled r uf (upserts ops table)"
proof (induction ops arbitrary: table)
  case Nil
  then show ?case by simp
next
  case (Cons op ops)
  obtain r' uf' where op: "op = (r', uf')" by (cases op)
  from Cons.prems(1) have fresh: "custom_id r' \<notin> (\<lambda>op. custom_id (fst op)) ` set ops"
    and dist: "distinct (map (\<lambda>op. custom_id (fst op)) ops)"
    by (simp_all add: op)
  show ?case
  proof (cases "(r, uf) = (r', uf')")
    case True
    have "settled r' uf' (upserts ops (upsert [F_custom_id] uf' r' table))"
      by (rule settled_kept_upserts [OF fresh settled_after])
    with True show ?thesis by (simp add: op upserts_Cons)
  next
    case False
    with Cons.prems(2) have "(r, uf) \<in> set ops" by (auto simp add: op)
    from Cons.IH [OF dist this] show ?thesis by (simp add: op upserts_Cons)
  qed
qed

lemma upserts_noop:
  "(\<And>r uf. (r, uf) \<in> set ops \<Longrightarrow> settled r uf table) \<Longrightarrow> upserts ops table = table"
proof (induction ops)
  case Nil
  show ?case by (simp add: upserts_Nil)
next
  case (Cons op ops)
  obtain r uf where op: "op = (r, uf)" by (cases op)
  have "upsert [F_custom_id] uf r table = table"
    by (rule settled_noop) (simp add: Cons.prems op)
  moreover have "upserts ops table = table"
    by (rule Cons.IH) (simp add: Cons.prems)
  ultimately show ?case by (simp add: op upserts_Cons)
qed

lemma upserts_idempotent:
  "distinct (map (\<lambda>op. custom_id (fst op)) ops) \<Longrightarrow>
     upserts ops (upserts ops table) = upserts ops table"
  by (rule upserts_noop) (rule upserts_settle)

text \<open>What the upserts do to a single row.\<close>

lemma upsert_keeps:
  "x \<in> set table \<Longrightarrow> custom_id x \<noteq> custom_id r \<Longrightarrow> x \<in> set (upsert [F_custom_id] uf r table)"
proof -
  assume x: "x \<in> set table" and other: "custom_id x \<noteq> custom_id r"
  let ?f = "\<lambda>t. if custom_id t = custom_id r then fold (copy_field r) uf t else t"
  from other x have "x \<in> ?f ` set table"
    by (intro image_eqI [where x = x]) simp_all
  with x show ?thesis by (simp add: upsert_custom_id)
qed

lemma upserts_keeps:
  "x \<in> set table \<Longrightarrow> custom_id x \<notin> (\<lambda>op. custom_id (fst op)) ` set ops \<Longrightarrow>
     x \<in> set (upserts ops table)"
proof (induction ops arbitrary: table)
  case Nil
  then show ?case by (simp add: upserts_Nil)
next
  case (Cons op ops)
  obtain r uf where op: "op = (r, uf)" by (cases op)
  from Cons.prems(2) have other: "custom_id x \<noteq> custom_id r"
    and rest: "custom_id x \<notin> (\<lambda>op. custom_id (fst op)) ` set ops"
    by (auto simp add: op)
  from upsert_keeps [OF Cons.prems(1) other]
  have "x \<in> set (upsert [F_custom_id] uf r table)" .
  from Cons.IH [OF this rest] show ?case by (simp add: op upserts_Cons)
qed

lemma upsert_writes:
  "t \<in> set table \<Longrightarrow> custom_id t = custom_id r \<Longrightarrow>
     fold (copy_field r) uf t \<in> set (upsert [F_custom_id] uf r table)"
proof -
  assume t: "t \<in> set table" and same: "custom_id t = custom_id r"
  let ?f = "\<lambda>t. if custom_id t = custom_id r then fold (copy_field r) uf t else t"
  from same t have "fold (copy_field r) uf t \<in> ?f ` set table"
    by (intro image_eqI [where x = t]) simp_all
  moreover from t same have "custom_id r \<in> custom_id ` set table"
    by (intro image_eqI [where x = t]) simp_all
  ultimately show ?thesis by (simp add: upsert_hit)
qed

lemma upsert_inserts:
  "custom_id r \<notin> custom_id ` set table \<Longrightarrow> r \<in> set (upsert [F_custom_id] uf r table)"
  by (simp add: upsert_miss)

lemma upserts_writes:
  "distinct (map (\<lambda>op. custom_id (fst op)) ops) \<Longrightarrow> (r, uf) \<in> set ops \<Longrightarrow>
   t \<in> set table \<Longrightarrow> custom_id t = custom_id r \<Longrightarrow>
     fold (copy_field r) uf t \<in> set (upserts ops table)"
proof (induction ops arbitrary: table)
  case Nil
  then show ?case by simp
next
  case (Cons op ops)
  obtain r' uf' where op: "op = (r', uf')" by (cases op)
  from Cons.prems(1) have fresh: "custom_id r' \<notin> (\<lambda>op. custom_id (fst op)) ` set ops"
    and dist: "distinct (map (\<lambda>op. custom_id (fst op)) ops)"
    by (simp_all add: op)
  show ?case
  proof (cases "(r, uf) = (r', uf')")
    case True
    then have r: "r' = r" and uf: "uf' = uf" by simp_all
    have written: "fold (copy_field r) uf t \<in> set (upsert [F_custom_id] uf r table)"
      by (rule upsert_writes [OF Cons.prems(3,4)])
    have "custom_id (fold (copy_field r) uf t) = custom_id r"
      using Cons.prems(4) by (simp add: fold_copy_field)
    with fresh have "custom_id (fold (copy_field r) uf t) \<notin> (\<lambda>op. custom_id (fst op)) ` set ops"
      by (simp add: r)
    from upserts_keeps [OF written this] show ?thesis by (simp add: op r uf upserts_Cons)
  next
    case False
    with Cons.prems(2) have mem: "(r, uf) \<in> set ops" by (auto simp add: op)
    then have in_ops: "custom_id r \<in> (\<lambda>op. custom_id (fst op)) ` set ops"
      by (intro image_eqI [where x = "(r, uf)"]) simp_all
    have "custom_id r \<noteq> custom_id r'"
    proof
      assume same_id: "custom_id r = custom_id r'"
      from same_id in_ops have "custom_id r' \<in> (\<lambda>op. custom_id (fst op)) ` set ops"
        by (rule subst)
      with fresh show False by (rule notE)
    qed
    with Cons.prems(4) have "custom_id t \<noteq> custom_id r'" by simp
    from upsert_keeps [OF Cons.prems(3) this]
    have "t \<in> set (upsert [F_custom_id] uf' r' table)" .
    from Cons.IH [OF dist mem this Cons.prems(4)] show ?thesis by (simp add: op upserts_Cons)
  qed
qed

lemma upserts_inserts:
  "distinct (map (\<lambda>op. custom_id (fst op)) ops) \<Longrightarrow> (r, uf) \<in> set ops \<Longrightarrow>
   custom_id r \<notin> custom_id ` set table \<Longrightarrow> r \<in> set (upserts ops table)"
proof (induction ops arbitrary: table)
  case Nil
  then show ?case by simp
next
  case (Cons op ops)
  obtain r' uf' where op: "op = (r', uf')" by (cases op)
  from Cons.prems(1) have fresh: "custom_id r' \<notin> (\<lambda>op. custom_id (fst op)) ` set ops"
    and dist: "distinct (map (\<lambda>op. custom_id (fst op)) ops)"
    by (simp_all add: op)
  show ?case
  proof (cases "(r, uf) = (r', uf')")
    case True
    then have r: "r' = r" and uf: "uf' = uf" by simp_all
    have inserted: "r \<in> set (upsert [F_custom_id] uf r table)"
      by (rule upsert_inserts [OF Cons.prems(3)])
    from fresh have "custom_id r \<notin> (\<lambda>op. custom_id (fst op)) ` set ops"
      by (simp add: r)
    from upserts_keeps [OF inserted this] show ?thesis by (simp add: op r uf upserts_Cons)
  next
    case False
    with Cons.prems(2) have mem: "(r, uf) \<in> set ops" by (auto simp add: op)
    then have in_ops: "custom_id r \<in> (\<lambda>op. custom_id (fst op)) ` set ops"
      by (intro image_eqI [where x = "(r, uf)"]) simp_all
    have "custom_id r \<noteq> custom_id r'"
    proof
      assume same_id: "custom_id r = custom_id r'"
      from same_id in_ops have "custom_id r' \<in> (\<lambda>op. custom_id (fst op)) ` set ops"
        by (rule subst)
      with fresh show False by (rule notE)
    qed
    with Cons.prems(3) have "custom_id r \<notin> custom_id ` set (upsert [F_custom_id] uf' r' table)"
      by (simp add: upsert_id_set)
    from Cons.IH [OF dist mem this] show ?thesis by (simp add: op upserts_Cons)
  qed
qed

lemma session_ops_member:
  "c \<in> set cs \<Longrightarrow> r \<in> set (player_sessions c) \<Longrightarrow> (r, container_fields c) \<in> set (session_ops cs)"
  by (auto simp add: session_ops_def)

text \<open>
  C9. \<^verbatim>\<open>on_playerlist_finish\<close> upserts on \<open>custom_id\<close>. A table without two rows of
  one correlation id stays so; the correlation ids afterwards are those of the table and
  of the sessions of the containers; running the handler again on its own result adds no
  row. When no correlation id occurs twice among the sessions of the event: running the
  handler again changes nothing at all; for every container and every session of it, each
  stored row with the correlation id of the session ends up with the fields listed by
  that very container taken from the session and every other field as it was stored, and
  a session whose correlation id was not stored is inserted as it is. A stored row whose
  correlation id no session has is kept. Writing the listed fields of a session into a
  row makes the row agree with the session on the listed fields and leaves it as it was
  on the others; and for a single session whose correlation id is stored, the table
  afterwards is the table with the listed fields written into the rows of that id.
\<close>

theorem playerlist_finish_upsert:
  "(distinct (map custom_id table) \<longrightarrow> distinct (map custom_id (on_playerlist_finish cs table))) \<and>
   set (map custom_id (on_playerlist_finish cs table)) =
     set (map custom_id table) \<union> (\<Union>c \<in> set cs. custom_id ` set (player_sessions c)) \<and>
   map custom_id (on_playerlist_finish cs (on_playerlist_finish cs table)) =
     map custom_id (on_playerlist_finish cs table) \<and>
   (distinct (concat (map (\<lambda>c. map custom_id (player_sessions c)) cs)) \<longrightarrow>
      on_playerlist_finish cs (on_playerlist_finish cs table) = on_playerlist_finish cs table \<and>
      (\<forall>c \<in> set cs. \<forall>r \<in> set (player_sessions c).
         (\<forall>t \<in> set table. custom_id t = custom_id r \<longrightarrow>
            fold (copy_field r) (container_fields c) t \<in> set (on_playerlist_finish cs table)) \<and>
         (custom_id r \<notin> custom_id ` set table \<longrightarrow> r \<in> set (on_playerlist_finish cs table)))) \<and>
   (\<forall>t \<in> set table. custom_id t \<notin> (\<Union>c \<in> set cs. custom_id ` set (player_sessions c)) \<longrightarrow>
      t \<in> set (on_playerlist_finish cs table)) \<and>
   (\<forall>r uf t f. same_field f (fold (copy_field r) uf t) (if f \<in> set uf then r else t)) \<and>
   (custom_id r \<in> custom_id ` set table \<longrightarrow>
      on_playerlist_finish [\<lparr>player_sessions = [r], container_fields = uf\<rparr>] table =
        map (\<lambda>t. if custom_id t = custom_id r then fold (copy_field r) uf t else t) table)"
proof -
  let ?T = "on_playerlist_finish cs table"
  let ?d = "distinct (concat (map (\<lambda>c. map custom_id (player_sessions c)) cs))"
  have ids: "set (map custom_id ?T) =
     set (map custom_id table) \<union> (\<Union>c \<in> set cs. custom_id ` set (player_sessions c))"
    by (simp add: on_playerlist_finish_upserts upserts_id_set session_ops_id_set)
  have dist: "distinct (map custom_id table) \<longrightarrow> distinct (map custom_id ?T)"
    by (simp add: on_playerlist_finish_upserts upserts_ids_distinct)
  have "(\<lambda>op. custom_id (fst op)) ` set (session_ops cs) \<subseteq> custom_id ` set (upserts (session_ops cs) table)"
    by (simp add: upserts_id_set)
  then have again: "map custom_id (on_playerlist_finish cs ?T) = map custom_id ?T"
    unfolding on_playerlist_finish_upserts by (rule upserts_ids_covered)
  have idem: "?d \<longrightarrow> on_playerlist_finish cs ?T = ?T"
    unfolding on_playerlist_finish_upserts
    by (simp add: session_ops_ids [symmetric] upserts_idempotent)
  have rows: "?d \<longrightarrow> (\<forall>c \<in> set cs. \<forall>r \<in> set (player_sessions c).
         (\<forall>t \<in> set table. custom_id t = custom_id r \<longrightarrow>
            fold (copy_field r) (container_fields c) t \<in> set ?T) \<and>
         (custom_id r \<notin> custom_id ` set table \<longrightarrow> r \<in> set ?T))"
  proof (intro impI ballI conjI)
    fix c r t
    assume d: ?d and c: "c \<in> set cs" and r: "r \<in> set (player_sessions c)"
      and t: "t \<in> set table" and same: "custom_id t = custom_id r"
    from d have d': "distinct (map (\<lambda>op. custom_id (fst op)) (session_ops cs))"
      by (simp add: session_ops_ids)
    from upserts_writes [OF d' session_ops_member [OF c r] t same]
    show "fold (copy_field r) (container_fields c) t \<in> set ?T"
      by (simp add: on_playerlist_finish_upserts)
  next
    fix c r
    assume d: ?d and c: "c \<in> set cs" and r: "r \<in> set (player_sessions c)"
      and new: "custom_id r \<notin> custom_id ` set table"
    from d have d': "distinct (map (\<lambda>op. custom_id (fst op)) (session_ops cs))"
      by (simp add: session_ops_ids)
    from upserts_inserts [OF d' session_ops_member [OF c r] new]
    show "r \<in> set ?T"
      by (simp add: on_playerlist_finish_upserts)
  qed
  have kept: "\<forall>t \<in> set table. custom_id t \<notin> (\<Union>c \<in> set cs. custom_id ` set (player_sessions c)) \<longrightarrow>
      t \<in> set ?T"
  proof (intro ballI impI)
    fix t
    assume t: "t \<in> set table"
    assume "custom_id t \<notin> (\<Union>c \<in> set cs. custom_id ` set (player_sessions c))"
    then have "custom_id t \<notin> (\<lambda>op. custom_id (fst op)) ` set (session_ops cs)"
      unfolding session_ops_id_set .
    from upserts_keeps [OF t this] show "t \<in> set ?T"
      by (simp add: on_playerlist_finish_upserts)
  qed
  have fields: "\<forall>r uf t f. same_field f (fold (copy_field r) uf t) (if f \<in> set uf then r else t)"
    by (simp add: same_field_fold)
  have one: "custom_id r \<in> custom_id ` set table \<longrightarrow>
      on_playerlist_finish [\<lparr>player_sessions = [r], container_fields = uf\<rparr>] table =
        map (\<lambda>t. if custom_id t = custom_id r then fold (copy_field r) uf t else t) table"
    by (simp add: on_playerlist_finish_def bulk_create_def upsert_custom_id)
  have both: "?d \<longrightarrow> on_playerlist_finish cs ?T = ?T \<and>
      (\<forall>c \<in> set cs. \<forall>r \<in> set (player_sessions c).
         (\<forall>t \<in> set table. custom_id t = custom_id r \<longrightarrow>
            fold (copy_field r) (container_fields c) t \<in> set ?T) \<and>
         (custom_id r \<notin> custom_id ` set table \<longrightarrow> r \<in> set ?T))"
  proof (rule impI)
    assume d: ?d
    from idem d have a: "on_playerlist_finish cs ?T = ?T" by (rule mp)
    from rows d have b: "\<forall>c \<in> set cs. \<forall>r \<in> set (player_sessions c).
         (\<forall>t \<in> set table. custom_id t = custom_id r \<longrightarrow>
            fold (copy_field r) (container_fields c) t \<in> set ?T) \<and>
         (custom_id r \<notin> custom_id ` set table \<longrightarrow> r \<in> set ?T)" by (rule mp)
    from a b show "on_playerlist_finish cs ?T = ?T \<and>
      (\<forall>c \<in> set cs. \<forall>r \<in> set (player_sessions c).
         (\<forall>t \<in> set table. custom_id t = custom_id r \<longrightarrow>
            fold (copy_field r) (container_fields c) t \<in> set ?T) \<and>
         (custom_id r \<notin> custom_id ` set table \<longrightarrow> r \<in> set ?T))" by (rule conjI)
  qed
  show ?thesis
    by (rule conjI, rule dist, rule conjI, rule ids, rule conjI, rule again, rule conjI,
        rule both, rule conjI, rule kept, rule conjI, rule fields, rule one)
qed

theorem playerlist_finish_upsert_witness:
  "distinct (map custom_id example_sessions) \<and>
   distinct (concat (map (\<lambda>c. map custom_id (player_sessions c)) example_containers_two)) \<and>
   distinct (map custom_id (on_playerlist_finish example_containers_two example_sessions)) \<and>
   on_playerlist_finish example_containers_two
     (on_playerlist_finish example_containers_two example_sessions) =
     on_playerlist_finish example_containers_two example_sessions \<and>
   \<lparr>custom_id = 7, realm_id = ''1'', xuid = ''A'', online = False, last_seen = 50\<rparr>
     \<in> set (on_playerlist_finish example_containers_two example_sessions) \<and>
   \<lparr>custom_id = 8, realm_id = ''1'', xuid = ''B'', online = True, last_seen = 60\<rparr>
     \<in> set (on_playerlist_finish example_containers_two example_sessions) \<and>
   \<lparr>custom_id = 9, realm_id = ''1'', xuid = ''C'', online = False, last_seen = 0\<rparr>
     \<in> set (on_playerlist_finish example_containers_two example_sessions) \<and>
   \<lparr>custom_id = 20, realm_id = ''1'', xuid = ''D'', online = True, last_seen = 60\<rparr>
     \<in> set (on_playerlist_finish example_containers_two example_sessions)"
proof -
  let ?T = "on_playerlist_finish example_containers_two example_sessions"
  let ?a = "\<lparr>custom_id = 7, realm_id = ''1'', xuid = ''A'', online = False, last_seen = 50\<rparr>"
  let ?b = "\<lparr>custom_id = 8, realm_id = ''1'', xuid = ''B'', online = False, last_seen = 60\<rparr>"
  let ?d = "\<lparr>custom_id = 20, realm_id = ''1'', xuid = ''D'', online = True, last_seen = 60\<rparr>"
  let ?c1 = "\<lparr>player_sessions = [?a], container_fields = [F_online, F_last_seen]\<rparr>"
  let ?c2 = "\<lparr>player_sessions = [?b, ?d], container_fields = [F_last_seen]\<rparr>"
  let ?rows = "\<lambda>c r. (\<forall>t \<in> set example_sessions. custom_id t = custom_id r \<longrightarrow>
            fold (copy_field r) (container_fields c) t \<in> set ?T) \<and>
         (custom_id r \<notin> custom_id ` set example_sessions \<longrightarrow> r \<in> set ?T)"
  note T = playerlist_finish_upsert [of example_sessions example_containers_two]
  have d1: "distinct (map custom_id example_sessions)"
    by (simp add: example_sessions_def)
  have d2: "distinct (concat (map (\<lambda>c. map custom_id (player_sessions c)) example_containers_two))"
    by (simp add: example_containers_two_def)
  from T [THEN conjunct1] d1 have dist: "distinct (map custom_id ?T)"
    by (rule mp)
  from T [THEN conjunct2, THEN conjunct2, THEN conjunct2, THEN conjunct1] d2
  have both: "on_playerlist_finish example_containers_two ?T = ?T \<and>
      (\<forall>c \<in> set example_containers_two. \<forall>r \<in> set (player_sessions c). ?rows c r)"
    by (rule mp)
  then have idem: "on_playerlist_finish example_containers_two ?T = ?T"
    and rows: "\<forall>c \<in> set example_containers_two. \<forall>r \<in> set (player_sessions c). ?rows c r"
    by (rule conjunct1, rule conjunct2)
  have kept: "\<forall>t \<in> set example_sessions.
      custom_id t \<notin> (\<Union>c \<in> set example_containers_two. custom_id ` set (player_sessions c)) \<longrightarrow>
      t \<in> set ?T"
    by (rule T [THEN conjunct2, THEN conjunct2, THEN conjunct2, THEN conjunct2, THEN conjunct1])
  have c1: "?c1 \<in> set example_containers_two" and c2: "?c2 \<in> set example_containers_two"
    by (simp_all add: example_containers_two_def)
  from rows c1 have "\<forall>r \<in> set (player_sessions ?c1). ?rows ?c1 r" by (rule bspec)
  then have ra: "?rows ?c1 ?a" by simp
  from rows c2 have r2: "\<forall>r \<in> set (player_sessions ?c2). ?rows ?c2 r" by (rule bspec)
  then have rb: "?rows ?c2 ?b" and rd: "?rows ?c2 ?d" by simp_all
  from ra have a: "\<lparr>custom_id = 7, realm_id = ''1'', xuid = ''A'', online = False, last_seen = 50\<rparr> \<in> set ?T"
    by (simp add: example_sessions_def)
  from rb have b: "\<lparr>custom_id = 8, realm_id = ''1'', xuid = ''B'', online = True, last_seen = 60\<rparr> \<in> set ?T"
    by (simp add: example_sessions_def)
  from rd have d: "\<lparr>custom_id = 20, realm_id = ''1'', xuid = ''D'', online = True, last_seen = 60\<rparr> \<in> set ?T"
    by (simp add: example_sessions_def)
  from kept have c: "\<lparr>custom_id = 9, realm_id = ''1'', xuid = ''C'', online = False, last_seen = 0\<rparr> \<in> set ?T"
    by (simp add: example_sessions_def example_containers_two_def)
  show ?thesis
    by (rule conjI, rule d1, rule conjI, rule d2, rule conjI, rule dist, rule conjI, rule idem,
        rule conjI, rule a, rule conjI, rule b, rule conjI, rule c, rule d)
qed

section \<open>The unreachable realm\<close>

lemma trace_call_ext: "trace (snd (call_ext e c b)) = trace b @ [c]"
  by (simp add: call_ext_def)

lemma fst_call_ext: "fst (call_ext e c b) = raises e c"
  by (simp add: call_ext_def)

lemma trace_delivery_except:
  "trace (snd (delivery_except e config x b)) =
     trace b @ (case x of HTTPException status \<Rightarrow> [EventuallyInvalidate config None] | _ \<Rightarrow> [])"
  by (simp add: delivery_except_def call_ext_def split: exn.splits)

lemma fst_delivery_except:
  "fst (delivery_except e config x b) =
     (case x of ValueError \<Rightarrow> None
              | HTTPException status \<Rightarrow> raises e (EventuallyInvalidate config None)
              | _ \<Rightarrow> Some x)"
  by (simp add: delivery_except_def call_ext_def split: exn.splits)

lemma dispatch_delivery_except:
  "filter is_dispatch (trace (snd (delivery_except e config x b))) = filter is_dispatch (trace b)"
  by (simp add: trace_delivery_except is_dispatch_def split: exn.splits)

lemma realm_down_send_dispatch:
  "filter is_dispatch (trace (snd (realm_down_send e ev config role_id unable b))) =
     filter is_dispatch (trace b)"
  by (simp add: realm_down_send_def call_ext_def dispatch_delivery_except is_dispatch_def
      split: option.splits)

lemma realm_down_notify_dispatch:
  "filter is_dispatch (trace (snd (realm_down_notify e ev config b))) = filter is_dispatch (trace b)"
  by (simp add: realm_down_notify_def call_ext_def dispatch_delivery_except
      realm_down_send_dispatch is_dispatch_def Let_def split: option.splits)

lemma realm_down_loop_dispatch:
  "filter is_dispatch (trace (snd (realm_down_loop e ev configs b))) = filter is_dispatch (trace b)"
proof (induction configs arbitrary: b)
  case Nil
  show ?case by simp
next
  case (Cons config configs)
  obtain res b1 where step: "realm_down_notify e ev config b = (res, b1)"
    by (cases "realm_down_notify e ev config b")
  have b1: "filter is_dispatch (trace b1) = filter is_dispatch (trace b)"
    using realm_down_notify_dispatch [of e ev config b] by (simp add: step)
  show ?case
  proof (cases res)
    case None
    with step b1 Cons.IH [of b1] show ?thesis by simp
  next
    case (Some x)
    with step b1 show ?thesis by simp
  qed
qed

lemma realm_down_dispatch_trace:
  "trace (realm_down_dispatch ev b) =
     trace b @
     (if set_at (live_playerlist_store b) (rd_realm_id ev) = {||} then []
      else [Dispatch \<lparr>lps_realm_id = rd_realm_id ev, joined = {||}, left = disconnected ev,
                      lps_timestamp = rd_timestamp ev\<rparr>])"
  by (simp add: realm_down_dispatch_def defaultdict_set_getitem_def set_at_def Let_def
      split: option.splits)

text \<open>
  The realm-down handler of the sources dispatches a live update exactly when the store
  has a live subscriber for the realm, and then exactly one: nobody joined, the
  disconnected players of the event left, at the timestamp of the event. Nothing else in
  the handler dispatches a live update.
\<close>

lemma realm_down_live_update:
  "filter is_dispatch (trace (snd (realm_down e ev b))) =
     filter is_dispatch (trace b) @
     (if set_at (live_playerlist_store b) (rd_realm_id ev) = {||} then []
      else [Dispatch \<lparr>lps_realm_id = rd_realm_id ev, joined = {||}, left = disconnected ev,
                      lps_timestamp = rd_timestamp ev\<rparr>])"
  by (simp add: realm_down_def realm_down_loop_dispatch realm_down_dispatch_trace is_dispatch_def)













text \<open>
  The model against the scenarios of the spec (section 8): \<open>{A, B}\<close> online and a poll
  that returns \<open>{B, C}\<close> give the delta with \<open>C\<close> joined and \<open>A\<close> left, and the store
  holds \<open>{B, C}\<close>; unreachable, unreachable, unreachable, reachable, unreachable give two
  realm-down events, at the first and at the fifth cycle.
\<close>

lemma example_poll_scenarios:
  "fst (poll_cycle ''1'' (Snapshot {|''B'', ''C''|}) 1000 example_tracker) =
     [Delta \<lparr>lps_realm_id = ''1'', joined = {|''C''|}, left = {|''A''|}, lps_timestamp = 1000\<rparr>] \<and>
   presence (snd (poll_cycle ''1'' (Snapshot {|''B'', ''C''|}) 1000 example_tracker)) ''1'' =
     {|''B'', ''C''|} \<and>
   fst (poll_cycles ''1''
     [(Unreachable, 1), (Unreachable, 2), (Unreachable, 3), (Snapshot {|''A'', ''B''|}, 4),
      (Unreachable, 5)] example_tracker) =
     [RealmDown ''1'' 1, RealmDown ''1'' 5]"
  by code_simp



section \<open>The dispatch loops\<close>

text \<open>
  C6. When the config of a subscribed guild has no premium code, the loop body does
  exactly two things: it reads the config and calls \<^verbatim>\<open>invalidate_premium\<close>, whose
  outcome is the outcome of the body. None of its calls is a delivery call (no channel is
  fetched, nothing is sent), no failure is recorded for any guild, and the store is left
  alone, whatever the playerlist channel of the config is.
\<close>

theorem entitlement_lost_short_circuit:
  assumes "raises e (GuildConfigGet g) = None" and "premium_code (stored_config e g) = None"
  shows "fst (send_live_playerlist e rid em g b) = raises e (InvalidatePremium (stored_config e g)) \<and>
     new_calls b (snd (send_live_playerlist e rid em g b)) =
       [GuildConfigGet g, InvalidatePremium (stored_config e g)] \<and>
     list_all (\<lambda>c. \<not> is_delivery c) (new_calls b (snd (send_live_playerlist e rid em g b))) \<and>
     (\<forall>g'. failures_recorded (new_calls b (snd (send_live_playerlist e rid em g b))) g' = 0) \<and>
     live_playerlist_store (snd (send_live_playerlist e rid em g b)) = live_playerlist_store b"
proof -
  from assms have run: "send_live_playerlist e rid em g b =
     (raises e (InvalidatePremium (stored_config e g)),
      b\<lparr>trace := trace b @ [GuildConfigGet g, InvalidatePremium (stored_config e g)]\<rparr>)"
    by (simp add: send_live_playerlist_def call_ext_def Let_def)
  show ?thesis
    by (simp add: run new_calls_def is_delivery_def failures_recorded_def)
qed

theorem entitlement_lost_short_circuit_witness:
  "raises example_env_no_premium (GuildConfigGet 10) = None \<and>
   premium_code (stored_config example_env_no_premium 10) = None \<and>
   playerlist_chan (stored_config example_env_no_premium 10) = None \<and>
   fst (send_live_playerlist example_env_no_premium ''1'' example_embed 10 example_live_bot) = None \<and>
   new_calls example_live_bot
     (snd (send_live_playerlist example_env_no_premium ''1'' example_embed 10 example_live_bot)) =
     [GuildConfigGet 10, InvalidatePremium (stored_config example_env_no_premium 10)] \<and>
   live_playerlist_store
     (snd (send_live_playerlist example_env_no_premium ''1'' example_embed 10 example_live_bot)) =
     live_playerlist_store example_live_bot"
proof -
  have h1: "raises example_env_no_premium (GuildConfigGet 10) = None"
    by (simp add: example_env_no_premium_def example_env_def)
  have h2: "premium_code (stored_config example_env_no_premium 10) = None"
    and h3: "playerlist_chan (stored_config example_env_no_premium 10) = None"
    by (simp_all add: example_env_no_premium_def example_env_def)
  have h4: "raises example_env_no_premium (InvalidatePremium (stored_config example_env_no_premium 10)) = None"
    by (simp add: example_env_no_premium_def example_env_def)
  from entitlement_lost_short_circuit [OF h1 h2, of "''1''" example_embed example_live_bot] h1 h2 h3 h4
  show ?thesis by simp
qed

lemma not_delivery_quiet:
  "delivery_errors_only e \<Longrightarrow> \<not> is_delivery c \<Longrightarrow> raises e c = None"
proof -
  assume d: "delivery_errors_only e" and n: "\<not> is_delivery c"
  from d have "case raises e c of None \<Rightarrow> True | Some x \<Rightarrow> is_delivery c \<and> caught x"
    unfolding delivery_errors_only_def by blast
  with n show ?thesis by (cases "raises e c") simp_all
qed

lemma delivery_caught:
  "delivery_errors_only e \<Longrightarrow> raises e c = Some x \<Longrightarrow>
     x = ValueError \<or> (\<exists>status. x = HTTPException status)"
proof -
  assume d: "delivery_errors_only e" and r: "raises e c = Some x"
  from d have "case raises e c of None \<Rightarrow> True | Some x \<Rightarrow> is_delivery c \<and> caught x"
    unfolding delivery_errors_only_def by blast
  with r have "caught x" by simp
  then show ?thesis by (cases x) (simp_all add: caught_def)
qed

text \<open>The calls of the loop of the live update.\<close>

lemma attempt_calls_quiet:
  "raises e c = None \<Longrightarrow> attempt_calls e config (c # cs) = c # attempt_calls e config cs"
  by simp

lemma send_live_playerlist_calls:
  assumes d: "delivery_errors_only e"
  shows "fst (send_live_playerlist e rid em g b) = None \<and>
     trace (snd (send_live_playerlist e rid em g b)) = trace b @ live_update_calls e em g"
proof -
  let ?config = "stored_config e g"
  let ?fetch = "FetchPlayerlistChannel ?config"
  let ?send = "ChanSend g (LivePlayerlist em)"
  have get: "raises e (GuildConfigGet g) = None"
    by (rule not_delivery_quiet [OF d]) (simp add: is_delivery_def)
  have inv: "raises e (InvalidatePremium ?config) = None"
    by (rule not_delivery_quiet [OF d]) (simp add: is_delivery_def)
  have save: "\<And>c. raises e (ConfigSave c) = None"
    by (rule not_delivery_quiet [OF d]) (simp add: is_delivery_def)
  have ei: "raises e (EventuallyInvalidate ?config None) = None"
    by (rule not_delivery_quiet [OF d]) (simp add: is_delivery_def)
  consider (premium) "premium_code ?config = None"
    | (chan) "premium_code ?config \<noteq> None" "\<not> truthy_int (playerlist_chan ?config)"
    | (guild) "premium_code ?config \<noteq> None" "truthy_int (playerlist_chan ?config)" "\<not> get_guild e g"
    | (deliver) "premium_code ?config \<noteq> None" "truthy_int (playerlist_chan ?config)" "get_guild e g"
    by blast
  then show ?thesis
  proof cases
    case premium
    then show ?thesis
      by (simp add: send_live_playerlist_def live_update_calls_def call_ext_def Let_def get inv)
  next
    case chan
    then show ?thesis
      by (simp add: send_live_playerlist_def live_update_calls_def call_ext_def Let_def get save chan)
  next
    case guild
    then show ?thesis
      by (simp add: send_live_playerlist_def live_update_calls_def call_ext_def Let_def get guild)
  next
    case deliver
    show ?thesis
    proof (cases "raises e ?fetch")
      case (Some x)
      from delivery_caught [OF d Some] show ?thesis
      proof
        assume x: "x = ValueError"
        show ?thesis
          by (simp add: send_live_playerlist_def live_update_calls_def call_ext_def Let_def
              delivery_except_def get deliver Some x)
      next
        assume "\<exists>status. x = HTTPException status"
        then obtain status where x: "x = HTTPException status" ..
        show ?thesis
          by (simp add: send_live_playerlist_def live_update_calls_def call_ext_def Let_def
              delivery_except_def get deliver Some x ei)
      qed
    next
      case None
      note fetch = None
      show ?thesis
      proof (cases "raises e ?send")
        case None
        show ?thesis
          by (simp add: send_live_playerlist_def live_update_calls_def call_ext_def Let_def
              get deliver fetch None)
      next
        case (Some x)
        from delivery_caught [OF d Some] show ?thesis
        proof
          assume x: "x = ValueError"
          show ?thesis
            by (simp add: send_live_playerlist_def live_update_calls_def call_ext_def Let_def
                delivery_except_def get deliver fetch Some x)
        next
          assume "\<exists>status. x = HTTPException status"
          then obtain status where x: "x = HTTPException status" ..
          show ?thesis
            by (simp add: send_live_playerlist_def live_update_calls_def call_ext_def Let_def
                delivery_except_def get deliver fetch Some x ei)
        qed
      qed
    qed
  qed
qed

lemma live_playerlist_loop_calls:
  assumes d: "delivery_errors_only e"
  shows "fst (live_playerlist_loop e rid em gids b) = None \<and>
     trace (snd (live_playerlist_loop e rid em gids b)) =
       trace b @ concat (map (live_update_calls e em) gids)"
proof (induction gids arbitrary: b)
  case Nil
  show ?case by simp
next
  case (Cons g gids)
  obtain b1 where step: "send_live_playerlist e rid em g b = (None, b1)"
    using send_live_playerlist_calls [OF d, of rid em g b]
    by (cases "send_live_playerlist e rid em g b") simp
  have t1: "trace b1 = trace b @ live_update_calls e em g"
    using send_live_playerlist_calls [OF d, of rid em g b] by (simp add: step)
  from Cons.IH [of b1] show ?case
    by (simp add: step t1)
qed

text \<open>The calls of the realm-down handler.\<close>

lemma realm_down_send_calls:
  assumes d: "delivery_errors_only e"
  shows "fst (realm_down_send e ev config role_id unable b) = None \<and>
     trace (snd (realm_down_send e ev config role_id unable b)) =
       trace b @ attempt_calls e config
         ((if unable then [EventuallyInvalidateRealmOffline config] else []) @
          [ChanSend (guild_id config) (RealmOffline role_id unable (rd_timestamp ev))])"
proof -
  let ?offline = "EventuallyInvalidateRealmOffline config"
  let ?send = "ChanSend (guild_id config) (RealmOffline role_id unable (rd_timestamp ev))"
  have qoff: "raises e ?offline = None"
    by (rule not_delivery_quiet [OF d]) (simp add: is_delivery_def)
  have ei: "raises e (EventuallyInvalidate config None) = None"
    by (rule not_delivery_quiet [OF d]) (simp add: is_delivery_def)
  show ?thesis
  proof (cases "raises e ?send")
    case None
    then show ?thesis
      by (cases unable) (simp_all add: realm_down_send_def call_ext_def qoff)
  next
    case (Some x)
    from delivery_caught [OF d Some] show ?thesis
    proof
      assume x: "x = ValueError"
      from Some x show ?thesis
        by (cases unable) (simp_all add: realm_down_send_def call_ext_def delivery_except_def qoff)
    next
      assume "\<exists>status. x = HTTPException status"
      then obtain status where x: "x = HTTPException status" ..
      from Some x show ?thesis
        by (cases unable) (simp_all add: realm_down_send_def call_ext_def delivery_except_def qoff ei)
    qed
  qed
qed

lemma realm_down_notify_calls:
  assumes d: "delivery_errors_only e"
  shows "fst (realm_down_notify e ev config b) = None \<and>
     trace (snd (realm_down_notify e ev config b)) = trace b @ realm_down_calls e ev config"
proof (cases "realm_offline_role config")
  case None
  then show ?thesis
    by (simp add: realm_down_notify_def realm_down_calls_def)
next
  case (Some role_id)
  note role = Some
  let ?g = "guild_id config"
  let ?role = "FetchRole ?g role_id"
  let ?fetch = "FetchPlayerlistChannel config"
  let ?unable = "fetched_role e ?g role_id = None \<or>
      (fetched_role e ?g role_id = Some False \<and> \<not> mention_everyone e ?g)"
  have qrole: "raises e ?role = None"
    by (rule not_delivery_quiet [OF d]) (simp add: is_delivery_def)
  have ei: "raises e (EventuallyInvalidate config None) = None"
    by (rule not_delivery_quiet [OF d]) (simp add: is_delivery_def)
  show ?thesis
  proof (cases "\<not> truthy_int (playerlist_chan config) \<or> role_id = 0 \<or> \<not> get_guild e ?g")
    case True
    then show ?thesis
      by (auto simp add: realm_down_notify_def realm_down_calls_def role)
  next
    case False
    then have chan: "truthy_int (playerlist_chan config)" and nz: "role_id \<noteq> 0"
      and guild: "get_guild e ?g"
      by simp_all
    show ?thesis
    proof (cases "raises e ?fetch")
      case (Some x)
      from delivery_caught [OF d Some] show ?thesis
      proof
        assume x: "x = ValueError"
        show ?thesis
          by (simp add: realm_down_notify_def realm_down_calls_def call_ext_def Let_def
              delivery_except_def role chan nz guild qrole Some x)
      next
        assume "\<exists>status. x = HTTPException status"
        then obtain status where x: "x = HTTPException status" ..
        show ?thesis
          by (simp add: realm_down_notify_def realm_down_calls_def call_ext_def Let_def
              delivery_except_def role chan nz guild qrole Some x ei)
      qed
    next
      case None
      let ?b2 = "b\<lparr>trace := trace b @ [?role, ?fetch]\<rparr>"
      have run: "realm_down_notify e ev config b = realm_down_send e ev config role_id ?unable ?b2"
        by (simp add: realm_down_notify_def call_ext_def Let_def role chan nz guild qrole None)
      have calls: "realm_down_calls e ev config =
          ?role # ?fetch # attempt_calls e config
            ((if ?unable then [EventuallyInvalidateRealmOffline config] else []) @
             [ChanSend ?g (RealmOffline role_id ?unable (rd_timestamp ev))])"
        by (simp add: realm_down_calls_def Let_def role chan nz guild None)
      from realm_down_send_calls [OF d, of ev config role_id ?unable ?b2]
      show ?thesis
        unfolding run calls by simp
    qed
  qed
qed

lemma realm_down_loop_calls:
  assumes d: "delivery_errors_only e"
  shows "fst (realm_down_loop e ev configs b) = None \<and>
     trace (snd (realm_down_loop e ev configs b)) =
       trace b @ concat (map (realm_down_calls e ev) configs)"
proof (induction configs arbitrary: b)
  case Nil
  show ?case by simp
next
  case (Cons config configs)
  obtain b1 where step: "realm_down_notify e ev config b = (None, b1)"
    using realm_down_notify_calls [OF d, of ev config b]
    by (cases "realm_down_notify e ev config b") simp
  have t1: "trace b1 = trace b @ realm_down_calls e ev config"
    using realm_down_notify_calls [OF d, of ev config b] by (simp add: step)
  from Cons.IH [of b1] show ?case
    by (simp add: step t1)
qed

lemma realm_down_calls_trace:
  assumes d: "delivery_errors_only e"
  shows "fst (realm_down e ev b) = None \<and>
     new_calls b (snd (realm_down e ev b)) =
       (if set_at (live_playerlist_store b) (rd_realm_id ev) = {||} then []
        else [Dispatch \<lparr>lps_realm_id = rd_realm_id ev, joined = {||}, left = disconnected ev,
                        lps_timestamp = rd_timestamp ev\<rparr>]) @
       concat (map (realm_down_calls e ev) (rd_configs ev))"
proof -
  from realm_down_loop_calls [OF d, of ev "rd_configs ev" "realm_down_dispatch ev b"]
  show ?thesis
    by (simp add: realm_down_def realm_down_dispatch_trace new_calls_def)
qed

section \<open>The missing-playerlist warning\<close>

lemma warn_destination_devices:
  "fetch_devices_for (snd (warn_destination e config b)) = fetch_devices_for b"
  by (simp add: warn_destination_def call_ext_def Let_def split: option.splits exn.splits)

lemma warn_destination_flag:
  "fst (warn_destination e config b) = Inr flag \<Longrightarrow> flag = (\<not> truthy_int (playerlist_chan config))"
  by (simp add: warn_destination_def call_ext_def Let_def split: option.splits exn.splits if_splits)

lemma warn_destination_skipped:
  "truthy_int (playerlist_chan config) \<Longrightarrow>
   \<not> (warning_notifications config \<and> get_guild e (guild_id config)) \<Longrightarrow>
   warn_destination e config b = (Inr False, b)"
  by (auto simp add: warn_destination_def)

lemma warn_destination_no_channel:
  "\<not> truthy_int (playerlist_chan config) \<Longrightarrow>
   trace (snd (warn_destination e config b)) =
     trace b @ [ConfigSave (config\<lparr>config_realm_id := None, club_id := None,
                live_playerlist := False, fetch_devices := False\<rparr>)]"
  by (simp add: warn_destination_def call_ext_def Let_def split: option.splits)

lemma warn_destination_warned:
  "truthy_int (playerlist_chan config) \<Longrightarrow> warning_notifications config \<Longrightarrow>
   get_guild e (guild_id config) \<Longrightarrow>
   trace (snd (warn_destination e config b)) =
     trace b @ EventuallyInvalidate config (Some 7) #
       (if raises e (EventuallyInvalidate config (Some 7)) = None
        then FetchPlayerlistChannel config #
          (if raises e (FetchPlayerlistChannel config) = None
           then [ChanSend (guild_id config) MissingPlayerlistWarning] else [])
        else [])"
  by (simp add: warn_destination_def call_ext_def Let_def split: option.splits exn.splits)

lemma warn_destination_stops:
  "truthy_int (playerlist_chan config) \<Longrightarrow> warning_notifications config \<Longrightarrow>
   get_guild e (guild_id config) \<Longrightarrow> fst (warn_destination e config b) = Inr flag \<Longrightarrow>
   raises e (EventuallyInvalidate config (Some 7)) = None"
  by (simp add: warn_destination_def call_ext_def Let_def split: option.splits exn.splits)

lemma warn_destination_calls:
  "\<exists>ys. trace (snd (warn_destination e config b)) = trace b @ ys \<and> (\<forall>r. LeaveRealm r \<notin> set ys)"
proof (cases "truthy_int (playerlist_chan config)")
  case False
  then show ?thesis by (simp add: warn_destination_no_channel)
next
  case True
  show ?thesis
  proof (cases "warning_notifications config \<and> get_guild e (guild_id config)")
    case False
    with True show ?thesis by (simp add: warn_destination_skipped)
  next
    case warned: True
    with True show ?thesis by (simp add: warn_destination_warned)
  qed
qed

lemma warning_loop_Cons:
  "warning_loop e (config # configs) flags b =
     (case fst (warn_destination e config b) of
        Inl x \<Rightarrow> (Inl x, snd (warn_destination e config b))
      | Inr flag \<Rightarrow> warning_loop e configs (flags @ [flag]) (snd (warn_destination e config b)))"
  by (cases "warn_destination e config b") (simp split: sum.splits)

lemma warning_loop_devices:
  "fetch_devices_for (snd (warning_loop e configs flags b)) = fetch_devices_for b"
proof (induction configs arbitrary: flags b)
  case Nil
  show ?case by simp
next
  case (Cons config configs)
  show ?case
    by (cases "fst (warn_destination e config b)")
       (simp_all add: warning_loop_Cons Cons.IH warn_destination_devices del: warning_loop.simps)
qed

lemma warning_loop_calls:
  "\<exists>ys. trace (snd (warning_loop e configs flags b)) = trace b @ ys \<and> (\<forall>r. LeaveRealm r \<notin> set ys)"
proof (induction configs arbitrary: flags b)
  case Nil
  show ?case by simp
next
  case (Cons config configs)
  let ?b1 = "snd (warn_destination e config b)"
  from warn_destination_calls [of e config b]
  obtain ys where ys: "trace ?b1 = trace b @ ys" "\<forall>r. LeaveRealm r \<notin> set ys"
    by blast
  show ?case
  proof (cases "fst (warn_destination e config b)")
    case (Inl x)
    with ys show ?thesis by (simp add: warning_loop_Cons del: warning_loop.simps)
  next
    case (Inr flag)
    from Cons.IH [of "flags @ [flag]" ?b1]
    obtain zs where zs: "trace (snd (warning_loop e configs (flags @ [flag]) ?b1)) = trace ?b1 @ zs"
      "\<forall>r. LeaveRealm r \<notin> set zs"
      by blast
    have "trace (snd (warning_loop e (config # configs) flags b)) = trace b @ (ys @ zs)"
      by (simp add: warning_loop_Cons Inr zs ys del: warning_loop.simps)
    moreover have "\<forall>r. LeaveRealm r \<notin> set (ys @ zs)"
      using ys zs by simp
    ultimately show ?thesis by blast
  qed
qed

lemma warning_loop_flags:
  "fst (warning_loop e configs flags b) = Inr flags' \<Longrightarrow>
     flags' = flags @ map (\<lambda>c. \<not> truthy_int (playerlist_chan c)) configs"
proof (induction configs arbitrary: flags b)
  case Nil
  then show ?case by simp
next
  case (Cons config configs)
  show ?case
  proof (cases "fst (warn_destination e config b)")
    case (Inl x)
    with Cons.prems show ?thesis by (simp add: warning_loop_Cons del: warning_loop.simps)
  next
    case (Inr flag)
    with Cons.prems have "fst (warning_loop e configs (flags @ [flag]) (snd (warn_destination e config b))) = Inr flags'"
      by (simp add: warning_loop_Cons del: warning_loop.simps)
    from Cons.IH [OF this] warn_destination_flag [OF Inr] show ?thesis by simp
  qed
qed

lemma all_flags:
  "(list_all (\<lambda>flag. flag) (map (\<lambda>c. \<not> truthy_int (playerlist_chan c)) configs) \<or>
    map (\<lambda>c. \<not> truthy_int (playerlist_chan c)) configs = []) =
   (\<forall>c \<in> set configs. \<not> truthy_int (playerlist_chan c))"
  by (auto simp add: list_all_iff)

lemma leave_realm_trace:
  "trace (snd (leave_realm e r b)) =
     trace b @ LeaveRealm r #
       (if raises e (LeaveRealm r) = Some (MicrosoftAPIException 404) then [LogWarning r] else [])"
  by (simp add: leave_realm_def call_ext_def Let_def split: option.splits exn.splits)

lemma leave_realm_devices:
  "fetch_devices_for (snd (leave_realm e r b)) = fetch_devices_for b |-| {|r|}"
  by (simp add: leave_realm_def call_ext_def Let_def split: option.splits exn.splits)

lemma leave_realm_result:
  "fst (leave_realm e r b) =
     (case raises e (LeaveRealm r) of
        Some (MicrosoftAPIException status) \<Rightarrow>
          if status = 404 then None else Some (MicrosoftAPIException status)
      | other \<Rightarrow> other)"
  by (simp add: leave_realm_def call_ext_def Let_def split: option.splits exn.splits)

text \<open>
  C4, as amended. The handler leaves the realm exactly when the pass over the configs
  ended without an exception and no config has a playerlist channel (which includes that
  there is no config); the realm is discarded from \<^verbatim>\<open>fetch_devices_for\<close> in that
  case and in no other; and the outcome of the drop is that of \<^verbatim>\<open>leave_realm\<close>,
  except that a \<^verbatim>\<open>MicrosoftAPIException\<close> with status 404 is swallowed.
\<close>

theorem realm_left_iff_no_channel:
  "(LeaveRealm (wmp_realm_id ev) \<in> set (new_calls b (snd (warning_missing_playerlist e ev b)))) =
     (\<not> isl (fst (warning_loop e (wmp_configs ev) [] b)) \<and>
      (\<forall>c \<in> set (wmp_configs ev). \<not> truthy_int (playerlist_chan c))) \<and>
   fetch_devices_for (snd (warning_missing_playerlist e ev b)) =
     (if \<not> isl (fst (warning_loop e (wmp_configs ev) [] b)) \<and>
         (\<forall>c \<in> set (wmp_configs ev). \<not> truthy_int (playerlist_chan c))
      then fetch_devices_for b |-| {|wmp_realm_id ev|} else fetch_devices_for b) \<and>
   (\<not> isl (fst (warning_loop e (wmp_configs ev) [] b)) \<and>
    (\<forall>c \<in> set (wmp_configs ev). \<not> truthy_int (playerlist_chan c)) \<longrightarrow>
      fst (warning_missing_playerlist e ev b) =
        (case raises e (LeaveRealm (wmp_realm_id ev)) of
           Some (MicrosoftAPIException status) \<Rightarrow>
             if status = 404 then None else Some (MicrosoftAPIException status)
         | other \<Rightarrow> other))"
proof -
  let ?loop = "warning_loop e (wmp_configs ev) [] b"
  let ?b1 = "snd ?loop"
  let ?r = "wmp_realm_id ev"
  let ?none = "\<forall>c \<in> set (wmp_configs ev). \<not> truthy_int (playerlist_chan c)"
  from warning_loop_calls [of e "wmp_configs ev" "[]" b]
  obtain ys where ys: "trace ?b1 = trace b @ ys" "\<forall>r. LeaveRealm r \<notin> set ys"
    by blast
  have dev: "fetch_devices_for ?b1 = fetch_devices_for b"
    by (rule warning_loop_devices)
  show ?thesis
  proof (cases "fst ?loop")
    case (Inl x)
    then have run: "warning_missing_playerlist e ev b = (Some x, ?b1)"
      by (cases ?loop) (simp add: warning_missing_playerlist_def)
    from Inl ys dev show ?thesis
      by (simp add: run new_calls_def)
  next
    case (Inr flags)
    from warning_loop_flags [OF Inr]
    have flags: "flags = map (\<lambda>c. \<not> truthy_int (playerlist_chan c)) (wmp_configs ev)"
      by simp
    have cond: "(list_all (\<lambda>flag. flag) flags \<or> flags = []) = ?none"
      unfolding flags by (rule all_flags)
    from Inr have run: "warning_missing_playerlist e ev b =
        (if ?none then leave_realm e ?r ?b1 else (None, ?b1))"
      by (cases ?loop) (simp add: warning_missing_playerlist_def cond)
    show ?thesis
    proof (cases ?none)
      case True
      then have run': "warning_missing_playerlist e ev b = leave_realm e ?r ?b1"
        unfolding run by (rule if_P)
      from True have yes: "?none = True"
        by simp
      from Inr have ok: "isl (fst ?loop) = False"
        by simp
      have left: "LeaveRealm ?r \<in> set (new_calls b (snd (leave_realm e ?r ?b1)))"
        by (simp add: new_calls_def leave_realm_trace ys)
      show ?thesis
        unfolding run' yes ok using left
        by (simp add: leave_realm_devices leave_realm_result dev)
    next
      case False
      then have run': "warning_missing_playerlist e ev b = (None, ?b1)"
        unfolding run by (rule if_not_P)
      from False have no: "?none = False"
        by simp
      have kept: "LeaveRealm ?r \<notin> set (new_calls b ?b1)"
        using ys by (simp add: new_calls_def)
      show ?thesis
        unfolding run' no using kept by (simp add: dev)
    qed
  qed
qed

lemma example_no_channel_run:
  "fst (warning_loop (example_env_leave 404) (wmp_configs example_warning_no_channel) [] example_devices_bot) =
     Inr [True] \<and>
   fetch_devices_for example_devices_bot = {|''1'', ''2''|} \<and>
   wmp_realm_id example_warning_no_channel = ''1'' \<and>
   raises (example_env_leave 404) (LeaveRealm ''1'') = Some (MicrosoftAPIException 404) \<and>
   raises (example_env_leave 500) (LeaveRealm ''1'') = Some (MicrosoftAPIException 500) \<and>
   fst (warning_loop (example_env_leave 500) (wmp_configs example_warning_no_channel) [] example_devices_bot) =
     Inr [True]"
  by (simp add: example_warning_no_channel_def example_env_leave_def example_env_def
      example_devices_bot_def example_live_bot_def example_bot_def new_bot_def example_config_def
      warn_destination_def call_ext_def truthy_int_def Let_def)

theorem realm_left_iff_no_channel_witness:
  "\<not> isl (fst (warning_loop (example_env_leave 404) (wmp_configs example_warning_no_channel) []
       example_devices_bot)) \<and>
   list_all (\<lambda>c. \<not> truthy_int (playerlist_chan c)) (wmp_configs example_warning_no_channel) \<and>
   LeaveRealm ''1'' \<in> set (new_calls example_devices_bot
     (snd (warning_missing_playerlist (example_env_leave 404) example_warning_no_channel example_devices_bot))) \<and>
   fetch_devices_for
     (snd (warning_missing_playerlist (example_env_leave 404) example_warning_no_channel example_devices_bot)) =
     {|''1'', ''2''|} |-| {|''1''|} \<and>
   fst (warning_missing_playerlist (example_env_leave 404) example_warning_no_channel example_devices_bot) = None \<and>
   fst (warning_missing_playerlist (example_env_leave 500) example_warning_no_channel example_devices_bot) =
     Some (MicrosoftAPIException 500)"
proof -
  have none: "\<forall>c \<in> set (wmp_configs example_warning_no_channel). \<not> truthy_int (playerlist_chan c)"
    by (simp add: example_warning_no_channel_def truthy_int_def)
  then have all: "list_all (\<lambda>c. \<not> truthy_int (playerlist_chan c)) (wmp_configs example_warning_no_channel)"
    by (simp add: list_all_iff)
  from realm_left_iff_no_channel [of example_warning_no_channel example_devices_bot "example_env_leave 404"]
    realm_left_iff_no_channel [of example_warning_no_channel example_devices_bot "example_env_leave 500"]
    example_no_channel_run none all
  show ?thesis by simp
qed

text \<open>
  C4, as stated, fails: the only destination of realm \<open>1\<close> is guild 12, which has no
  playerlist channel and for which no failure was ever recorded, before the handler or
  in it, so that it has exhausted no limit; the realm is left all the same.
\<close>

theorem realm_left_without_failure:
  "failures_recorded (trace example_devices_bot) 12 = 0 \<and>
   failures_recorded
     (trace (snd (warning_missing_playerlist example_env example_warning_no_channel example_devices_bot)))
     12 = 0 \<and>
   trace (snd (warning_missing_playerlist example_env example_warning_no_channel example_devices_bot)) =
     [ConfigSave ((example_config 12)\<lparr>config_realm_id := None, club_id := None, playerlist_chan := None,
        live_playerlist := False, fetch_devices := False\<rparr>),
      LeaveRealm ''1'']"
  by (simp add: failures_recorded_def warning_missing_playerlist_def leave_realm_def
      example_warning_no_channel_def example_env_def
      example_devices_bot_def example_live_bot_def example_bot_def new_bot_def example_config_def
      warn_destination_def call_ext_def truthy_int_def Let_def)

lemma new_calls_append: "trace b' = trace b @ ys \<Longrightarrow> new_calls b b' = ys"
  by (simp add: new_calls_def)

text \<open>The calls of the loop of the warning, and of the handler run cycle after cycle.\<close>

lemma warn_destination_trace:
  "fst (warn_destination e config b) = Inr flag \<Longrightarrow>
     trace (snd (warn_destination e config b)) = trace b @ warning_calls e config"
proof -
  assume ran: "fst (warn_destination e config b) = Inr flag"
  show ?thesis
  proof (cases "truthy_int (playerlist_chan config)")
    case False
    then show ?thesis
      by (simp add: warn_destination_no_channel warning_calls_def)
  next
    case True
    show ?thesis
    proof (cases "warning_notifications config \<and> get_guild e (guild_id config)")
      case False
      from warn_destination_skipped [OF True False, of b] False True show ?thesis
        by (auto simp add: warning_calls_def)
    next
      case warned: True
      then have warn: "warning_notifications config" and guild: "get_guild e (guild_id config)"
        by simp_all
      from warn_destination_stops [OF True warn guild ran]
      have quiet: "raises e (EventuallyInvalidate config (Some 7)) = None" .
      show ?thesis
        by (simp add: warn_destination_warned [OF True warn guild] warning_calls_def quiet
            True warn guild)
    qed
  qed
qed

lemma warning_loop_trace:
  "fst (warning_loop e configs flags b) = Inr flags' \<Longrightarrow>
     trace (snd (warning_loop e configs flags b)) =
       trace b @ concat (map (warning_calls e) configs)"
proof (induction configs arbitrary: flags b)
  case Nil
  then show ?case by simp
next
  case (Cons c cs)
  let ?b1 = "snd (warn_destination e c b)"
  from Cons.prems obtain flag where step: "fst (warn_destination e c b) = Inr flag"
    by (cases "fst (warn_destination e c b)") (simp_all add: warning_loop_Cons del: warning_loop.simps)
  from step have unfold: "warning_loop e (c # cs) flags b = warning_loop e cs (flags @ [flag]) ?b1"
    by (simp add: warning_loop_Cons del: warning_loop.simps)
  with Cons.prems have rest_ok: "fst (warning_loop e cs (flags @ [flag]) ?b1) = Inr flags'"
    by simp
  from Cons.IH [OF rest_ok] warn_destination_trace [OF step]
  show ?case
    unfolding unfold by simp
qed

lemma warn_destination_contained:
  assumes d: "delivery_errors_only e"
    and h1: "\<forall>config status. raises e (FetchPlayerlistChannel config) \<noteq> Some (HTTPException status)"
    and h2: "\<forall>g. raises e (ChanSend g MissingPlayerlistWarning) \<noteq> Some ValueError"
  shows "\<exists>flag. fst (warn_destination e config b) = Inr flag"
proof -
  let ?inv = "EventuallyInvalidate config (Some 7)"
  let ?fetch = "FetchPlayerlistChannel config"
  let ?send = "ChanSend (guild_id config) MissingPlayerlistWarning"
  have save: "\<And>c. raises e (ConfigSave c) = None"
    by (rule not_delivery_quiet [OF d]) (simp add: is_delivery_def)
  have inv: "raises e ?inv = None"
    by (rule not_delivery_quiet [OF d]) (simp add: is_delivery_def)
  show ?thesis
  proof (cases "truthy_int (playerlist_chan config)")
    case False
    then have "fst (warn_destination e config b) = Inr True"
      by (simp add: warn_destination_def call_ext_def Let_def save)
    then show ?thesis ..
  next
    case True
    show ?thesis
    proof (cases "warning_notifications config \<and> get_guild e (guild_id config)")
      case False
      from warn_destination_skipped [OF True False, of b]
      have "fst (warn_destination e config b) = Inr False" by simp
      then show ?thesis ..
    next
      case warned: True
      then have warn: "warning_notifications config" and guild: "get_guild e (guild_id config)"
        by simp_all
      show ?thesis
      proof (cases "raises e ?fetch")
        case (Some x)
        from delivery_caught [OF d Some] h1 Some have x: "x = ValueError"
          by auto
        have "fst (warn_destination e config b) = Inr False"
          by (simp add: warn_destination_def call_ext_def Let_def True warn guild inv Some x)
        then show ?thesis ..
      next
        case None
        note fetch = None
        show ?thesis
        proof (cases "raises e ?send")
          case None
          have "fst (warn_destination e config b) = Inr False"
            by (simp add: warn_destination_def call_ext_def Let_def True warn guild inv fetch None)
          then show ?thesis ..
        next
          case (Some x)
          from delivery_caught [OF d Some] h2 Some obtain status where x: "x = HTTPException status"
            by auto
          have "fst (warn_destination e config b) = Inr False"
            by (simp add: warn_destination_def call_ext_def Let_def True warn guild inv fetch Some x)
          then show ?thesis ..
        qed
      qed
    qed
  qed
qed

lemma warning_loop_contained:
  assumes d: "delivery_errors_only e"
    and h1: "\<forall>config status. raises e (FetchPlayerlistChannel config) \<noteq> Some (HTTPException status)"
    and h2: "\<forall>g. raises e (ChanSend g MissingPlayerlistWarning) \<noteq> Some ValueError"
  shows "\<not> isl (fst (warning_loop e configs flags b))"
proof (induction configs arbitrary: flags b)
  case Nil
  show ?case by simp
next
  case (Cons c cs)
  from warn_destination_contained [OF d h1 h2, of c b]
  obtain flag where step: "fst (warn_destination e c b) = Inr flag" ..
  from Cons.IH [of "flags @ [flag]" "snd (warn_destination e c b)"] show ?case
    by (simp add: warning_loop_Cons step del: warning_loop.simps)
qed













section \<open>Delivery failures in the three loops\<close>

text \<open>
  C7, as amended. In a world where only the two delivery calls raise (fetching the
  playerlist channel, sending to it), and raise only \<^verbatim>\<open>ValueError\<close> or
  \<^verbatim>\<open>HTTPException\<close>: the loop of the live update ends without an exception, and its
  calls are, guild after guild in the order of the loop, the calls of the live update for
  that guild; the realm-down handler ends without an exception, and its calls are the
  dispatch of the live update, if there is a live subscriber, and then, config after
  config, the calls of the realm-down notice for that config. In the calls for one
  destination, a delivery call that raised an \<^verbatim>\<open>HTTPException\<close> is directly followed
  by \<^verbatim>\<open>eventually_invalidate\<close> for the config of that destination, with which the
  calls for the destination end; one that raised a \<^verbatim>\<open>ValueError\<close> ends them with no
  further call; and the calls for the next destination follow. When moreover no fetch of
  a channel raises an \<^verbatim>\<open>HTTPException\<close> and no send of the warning a
  \<^verbatim>\<open>ValueError\<close>, the loop of the missing-playerlist warning ends without an
  exception as well, and its calls are, config after config, the calls of the warning for
  that config: a failed fetch or send is followed by no call for that destination.
\<close>

theorem delivery_failures_contained:
  assumes "delivery_errors_only e"
  shows "fst (live_playerlist_loop e rid em gids b) = None \<and>
     new_calls b (snd (live_playerlist_loop e rid em gids b)) =
       concat (map (live_update_calls e em) gids) \<and>
     fst (realm_down e ev b) = None \<and>
     new_calls b (snd (realm_down e ev b)) =
       (if set_at (live_playerlist_store b) (rd_realm_id ev) = {||} then []
        else [Dispatch \<lparr>lps_realm_id = rd_realm_id ev, joined = {||}, left = disconnected ev,
                        lps_timestamp = rd_timestamp ev\<rparr>]) @
       concat (map (realm_down_calls e ev) (rd_configs ev)) \<and>
     ((\<forall>config status. raises e (FetchPlayerlistChannel config) \<noteq> Some (HTTPException status)) \<and>
      (\<forall>g. raises e (ChanSend g MissingPlayerlistWarning) \<noteq> Some ValueError) \<longrightarrow>
        \<not> isl (fst (warning_loop e configs [] b)) \<and>
        new_calls b (snd (warning_loop e configs [] b)) = concat (map (warning_calls e) configs))"
proof -
  have live: "fst (live_playerlist_loop e rid em gids b) = None"
    and live_calls: "new_calls b (snd (live_playerlist_loop e rid em gids b)) =
       concat (map (live_update_calls e em) gids)"
    using live_playerlist_loop_calls [OF assms, of rid em gids b]
    by (simp_all add: new_calls_def)
  have down: "fst (realm_down e ev b) = None"
    and down_calls: "new_calls b (snd (realm_down e ev b)) =
       (if set_at (live_playerlist_store b) (rd_realm_id ev) = {||} then []
        else [Dispatch \<lparr>lps_realm_id = rd_realm_id ev, joined = {||}, left = disconnected ev,
                        lps_timestamp = rd_timestamp ev\<rparr>]) @
       concat (map (realm_down_calls e ev) (rd_configs ev))"
    using realm_down_calls_trace [OF assms, of ev b] by simp_all
  have warn: "(\<forall>config status. raises e (FetchPlayerlistChannel config) \<noteq> Some (HTTPException status)) \<and>
      (\<forall>g. raises e (ChanSend g MissingPlayerlistWarning) \<noteq> Some ValueError) \<longrightarrow>
        \<not> isl (fst (warning_loop e configs [] b)) \<and>
        new_calls b (snd (warning_loop e configs [] b)) = concat (map (warning_calls e) configs)"
  proof (intro impI, elim conjE)
    assume h1: "\<forall>config status. raises e (FetchPlayerlistChannel config) \<noteq> Some (HTTPException status)"
      and h2: "\<forall>g. raises e (ChanSend g MissingPlayerlistWarning) \<noteq> Some ValueError"
    from warning_loop_contained [OF assms h1 h2, of configs "[]" b]
    have ok: "\<not> isl (fst (warning_loop e configs [] b))" .
    then obtain flags where ran: "fst (warning_loop e configs [] b) = Inr flags"
      by (cases "fst (warning_loop e configs [] b)") simp_all
    from warning_loop_trace [OF ran]
    have "new_calls b (snd (warning_loop e configs [] b)) = concat (map (warning_calls e) configs)"
      by (rule new_calls_append)
    with ok show "\<not> isl (fst (warning_loop e configs [] b)) \<and>
        new_calls b (snd (warning_loop e configs [] b)) = concat (map (warning_calls e) configs)"
      by (rule conjI)
  qed
  show ?thesis
    by (rule conjI, rule live, rule conjI, rule live_calls, rule conjI, rule down, rule conjI,
        rule down_calls, rule warn)
qed

lemma example_forbidden_errors: "delivery_errors_only example_env_forbidden"
  by (simp add: delivery_errors_only_def example_env_forbidden_def example_env_def
      is_delivery_def caught_def split: call.splits)

lemma example_forbidden_live:
  "concat (map (live_update_calls example_env_forbidden example_embed) [10, 11]) =
     [GuildConfigGet 10, FetchPlayerlistChannel (example_config 10),
      ChanSend 10 (LivePlayerlist example_embed), EventuallyInvalidate (example_config 10) None,
      GuildConfigGet 11, FetchPlayerlistChannel (example_config 11),
      ChanSend 11 (LivePlayerlist example_embed)]"
  by (simp add: live_update_calls_def example_env_forbidden_def example_env_def
      example_config_def truthy_int_def Let_def)

lemma example_forbidden_down:
  "(if set_at (live_playerlist_store example_live_bot) (rd_realm_id example_realm_down_two) = {||}
    then []
    else [Dispatch \<lparr>lps_realm_id = rd_realm_id example_realm_down_two, joined = {||},
                    left = disconnected example_realm_down_two,
                    lps_timestamp = rd_timestamp example_realm_down_two\<rparr>]) @
   concat (map (realm_down_calls example_env_forbidden example_realm_down_two)
     (rd_configs example_realm_down_two)) =
     [Dispatch \<lparr>lps_realm_id = ''1'', joined = {||}, left = {|''A'', ''B''|}, lps_timestamp = 2000\<rparr>,
      FetchRole 10 600, FetchPlayerlistChannel (example_config 10),
      ChanSend 10 (RealmOffline 600 False 2000), EventuallyInvalidate (example_config 10) None,
      FetchRole 11 600, FetchPlayerlistChannel (example_config 11),
      ChanSend 11 (RealmOffline 600 False 2000)]"
  by (simp add: realm_down_calls_def example_env_forbidden_def example_env_def
      example_realm_down_two_def example_live_bot_def set_at_def
      example_config_def truthy_int_def Let_def)

lemma example_forbidden_warning:
  "concat (map (warning_calls example_env_forbidden) [example_config 10, example_config 11]) =
     [EventuallyInvalidate (example_config 10) (Some 7), FetchPlayerlistChannel (example_config 10),
      ChanSend 10 MissingPlayerlistWarning,
      EventuallyInvalidate (example_config 11) (Some 7), FetchPlayerlistChannel (example_config 11),
      ChanSend 11 MissingPlayerlistWarning]"
  by (simp add: warning_calls_def example_env_forbidden_def example_env_def
      example_config_def truthy_int_def)

theorem delivery_failures_contained_witness:
  "delivery_errors_only example_env_forbidden \<and>
   raises example_env_forbidden (ChanSend 10 (LivePlayerlist example_embed)) = Some (HTTPException 403) \<and>
   fst (live_playerlist_loop example_env_forbidden ''1'' example_embed [10, 11] example_live_bot) = None \<and>
   new_calls example_live_bot
     (snd (live_playerlist_loop example_env_forbidden ''1'' example_embed [10, 11] example_live_bot)) =
     [GuildConfigGet 10, FetchPlayerlistChannel (example_config 10),
      ChanSend 10 (LivePlayerlist example_embed), EventuallyInvalidate (example_config 10) None,
      GuildConfigGet 11, FetchPlayerlistChannel (example_config 11),
      ChanSend 11 (LivePlayerlist example_embed)] \<and>
   fst (realm_down example_env_forbidden example_realm_down_two example_live_bot) = None \<and>
   new_calls example_live_bot
     (snd (realm_down example_env_forbidden example_realm_down_two example_live_bot)) =
     [Dispatch \<lparr>lps_realm_id = ''1'', joined = {||}, left = {|''A'', ''B''|}, lps_timestamp = 2000\<rparr>,
      FetchRole 10 600, FetchPlayerlistChannel (example_config 10),
      ChanSend 10 (RealmOffline 600 False 2000), EventuallyInvalidate (example_config 10) None,
      FetchRole 11 600, FetchPlayerlistChannel (example_config 11),
      ChanSend 11 (RealmOffline 600 False 2000)] \<and>
   \<not> isl (fst (warning_loop example_env_forbidden [example_config 10, example_config 11] []
      example_live_bot)) \<and>
   new_calls example_live_bot
     (snd (warning_loop example_env_forbidden [example_config 10, example_config 11] []
        example_live_bot)) =
     [EventuallyInvalidate (example_config 10) (Some 7), FetchPlayerlistChannel (example_config 10),
      ChanSend 10 MissingPlayerlistWarning,
      EventuallyInvalidate (example_config 11) (Some 7), FetchPlayerlistChannel (example_config 11),
      ChanSend 11 MissingPlayerlistWarning]"
proof -
  let ?e = example_env_forbidden
  let ?configs = "[example_config 10, example_config 11]"
  note T = delivery_failures_contained [OF example_forbidden_errors,
      where rid = "''1''" and em = example_embed and gids = "[10, 11]" and b = example_live_bot
        and ev = example_realm_down_two and configs = ?configs]
  have fails: "raises ?e (ChanSend 10 (LivePlayerlist example_embed)) = Some (HTTPException 403)"
    by (simp add: example_env_forbidden_def)
  have h: "(\<forall>config status. raises ?e (FetchPlayerlistChannel config) \<noteq> Some (HTTPException status)) \<and>
      (\<forall>g. raises ?e (ChanSend g MissingPlayerlistWarning) \<noteq> Some ValueError)"
    by (simp add: example_env_forbidden_def example_env_def)
  from T have live: "fst (live_playerlist_loop ?e ''1'' example_embed [10, 11] example_live_bot) = None"
    by (rule conjunct1)
  from T [THEN conjunct2, THEN conjunct1]
  have live_calls: "new_calls example_live_bot
      (snd (live_playerlist_loop ?e ''1'' example_embed [10, 11] example_live_bot)) =
      concat (map (live_update_calls ?e example_embed) [10, 11])" .
  from T [THEN conjunct2, THEN conjunct2, THEN conjunct1]
  have down: "fst (realm_down ?e example_realm_down_two example_live_bot) = None" .
  note down_calls = T [THEN conjunct2, THEN conjunct2, THEN conjunct2, THEN conjunct1]
  from T [THEN conjunct2, THEN conjunct2, THEN conjunct2, THEN conjunct2] h
  have warn: "\<not> isl (fst (warning_loop ?e ?configs [] example_live_bot)) \<and>
      new_calls example_live_bot (snd (warning_loop ?e ?configs [] example_live_bot)) =
        concat (map (warning_calls ?e) ?configs)"
    by (rule mp)
  show ?thesis
    apply (rule conjI, rule example_forbidden_errors)
    apply (rule conjI, rule fails)
    apply (rule conjI, rule live)
    apply (rule conjI, simp only: live_calls example_forbidden_live)
    apply (rule conjI, rule down)
    apply (rule conjI, simp only: down_calls example_forbidden_down)
    apply (rule conjI, rule warn [THEN conjunct1])
    apply (simp only: warn [THEN conjunct2] example_forbidden_warning)
    done
qed

text \<open>
  C7, as stated, fails, in three ways. In the realm-down loop the role of guild 10 cannot
  be fetched (status 403): the exception leaves the handler, and guild 11 is not reached.
  In the loop of the missing-playerlist warning the send to guild 10 fails with status
  403: the exception is swallowed and the next call is for guild 11, so the failed
  delivery is routed nowhere, and the calls are those of the world in which the send
  succeeds. In the same loop the fetch of the channel of guild 10 fails with status 403:
  the exception leaves the handler, and guild 11 is not reached.
\<close>

theorem delivery_failure_not_contained:
  "raises example_env_role_forbidden (FetchRole 10 600) = Some (HTTPException 403) \<and>
   fst (realm_down example_env_role_forbidden example_realm_down_two example_bot) =
     Some (HTTPException 403) \<and>
   new_calls example_bot
     (snd (realm_down example_env_role_forbidden example_realm_down_two example_bot)) =
     [FetchRole 10 600] \<and>
   raises example_env_forbidden (ChanSend 10 MissingPlayerlistWarning) = Some (HTTPException 403) \<and>
   fst (warning_missing_playerlist example_env_forbidden example_warning_two example_bot) = None \<and>
   new_calls example_bot
     (snd (warning_missing_playerlist example_env_forbidden example_warning_two example_bot)) =
     [EventuallyInvalidate (example_config 10) (Some 7), FetchPlayerlistChannel (example_config 10),
      ChanSend 10 MissingPlayerlistWarning,
      EventuallyInvalidate (example_config 11) (Some 7), FetchPlayerlistChannel (example_config 11),
      ChanSend 11 MissingPlayerlistWarning] \<and>
   new_calls example_bot
     (snd (warning_missing_playerlist example_env example_warning_two example_bot)) =
     new_calls example_bot
       (snd (warning_missing_playerlist example_env_forbidden example_warning_two example_bot)) \<and>
   raises example_env_fetch_forbidden (FetchPlayerlistChannel (example_config 10)) =
     Some (HTTPException 403) \<and>
   fst (warning_missing_playerlist example_env_fetch_forbidden example_warning_two example_bot) =
     Some (HTTPException 403) \<and>
   new_calls example_bot
     (snd (warning_missing_playerlist example_env_fetch_forbidden example_warning_two example_bot)) =
     [EventuallyInvalidate (example_config 10) (Some 7), FetchPlayerlistChannel (example_config 10)]"
  by (simp add: new_calls_def realm_down_def realm_down_dispatch_def realm_down_notify_def
      defaultdict_set_getitem_def warning_missing_playerlist_def warn_destination_def
      call_ext_def example_env_role_forbidden_def example_env_forbidden_def
      example_env_fetch_forbidden_def example_env_def example_realm_down_two_def
      example_warning_two_def example_bot_def new_bot_def example_config_def truthy_int_def
      Let_def)

end
